theory Spec2Isabelle
  imports Complex_Main "HOL-Library.AList"
begin

section \<open>Python values and exceptions\<close>

text \<open>
  The repository passes products, sale items and terminal responses around as Python
  dictionaries of loosely typed values. A value is one of the JSON-native Python values;
  a dictionary is an association list in insertion order. Python floats are represented
  by the rational number they denote, so the rounding of float arithmetic is not part of
  the model.
\<close>

datatype pyval =
    PNone
  | PBool bool
  | PInt int
  | PFloat rat
  | PStr string
  | PList "pyval list"
  | PDict "(string \<times> pyval) list"

text \<open>The exceptions that can leave the functions modelled here.\<close>

datatype error =
    DatabaseError      \<comment> \<open>the repository's own exception (model.py)\<close>
  | MySQLError         \<comment> \<open>\<open>mysql.connector.Error\<close>, raised by the driver\<close>
  | AttributeError
  | ValueError
  | TypeError
  | OSError
  | JSONDecodeError

text \<open>Truthiness, as \<open>bool(v)\<close>, \<open>if v\<close> and \<open>v or d\<close> use it.\<close>

fun truthy :: "pyval \<Rightarrow> bool" where
  "truthy PNone = False"
| "truthy (PBool b) = b"
| "truthy (PInt i) = (i \<noteq> 0)"
| "truthy (PFloat r) = (r \<noteq> 0)"
| "truthy (PStr s) = (s \<noteq> [])"
| "truthy (PList xs) = (xs \<noteq> [])"
| "truthy (PDict kvs) = (kvs \<noteq> [])"

text \<open>\<open>a or b\<close>\<close>

definition py_or :: "pyval \<Rightarrow> pyval \<Rightarrow> pyval" where
  "py_or a b = (if truthy a then a else b)"

text \<open>
  \<open>d.get(k)\<close> and \<open>d.get(k, default)\<close>. Only a dictionary has \<open>get\<close>: on any
  other value the attribute lookup raises \<open>AttributeError\<close>.
\<close>

fun py_get_default :: "pyval \<Rightarrow> string \<Rightarrow> pyval \<Rightarrow> error + pyval" where
  "py_get_default (PDict kvs) k d = Inr (case map_of kvs k of Some v \<Rightarrow> v | None \<Rightarrow> d)"
| "py_get_default _ k d = Inl AttributeError"

definition py_get :: "pyval \<Rightarrow> string \<Rightarrow> error + pyval" where
  "py_get v k = py_get_default v k PNone"

subsection \<open>Text\<close>

text \<open>
  Characters are those of the ASCII range; \<open>str.isspace\<close>, \<open>str.strip\<close> and
  \<open>str.upper\<close> are modelled there.
\<close>

definition py_isspace :: "char \<Rightarrow> bool" where
  "py_isspace c = (let n = of_char c :: nat in (9 \<le> n \<and> n \<le> 13) \<or> (28 \<le> n \<and> n \<le> 32))"

definition py_strip :: "string \<Rightarrow> string" where
  "py_strip s = rev (dropWhile py_isspace (rev (dropWhile py_isspace s)))"

definition is_digit :: "char \<Rightarrow> bool" where
  "is_digit c = (let n = of_char c :: nat in 48 \<le> n \<and> n \<le> 57)"

definition digit_val :: "char \<Rightarrow> nat" where
  "digit_val c = of_char c - 48"

text \<open>
  \<open>int(s)\<close> for a string, base ten: surrounding whitespace is ignored, one sign is
  allowed, and single underscores may separate digits. \<open>None\<close> stands for
  \<open>ValueError\<close>.
\<close>

fun digits_from :: "nat \<Rightarrow> string \<Rightarrow> nat option" where
  "digits_from acc [] = Some acc"
| "digits_from acc [c] = (if is_digit c then Some (acc * 10 + digit_val c) else None)"
| "digits_from acc (c # d # ds) =
     (if c = CHR ''_'' then
        (if is_digit d then digits_from (acc * 10 + digit_val d) ds else None)
      else if is_digit c then digits_from (acc * 10 + digit_val c) (d # ds)
      else None)"

definition unsigned_int :: "string \<Rightarrow> nat option" where
  "unsigned_int s =
     (case s of [] \<Rightarrow> None
      | c # cs \<Rightarrow> if is_digit c then digits_from (digit_val c) cs else None)"

definition py_int_of_str :: "string \<Rightarrow> int option" where
  "py_int_of_str s =
     (case py_strip s of
        [] \<Rightarrow> None
      | c # cs \<Rightarrow>
          if c = CHR ''-'' then map_option (\<lambda>n. - int n) (unsigned_int cs)
          else if c = CHR ''+'' then map_option int (unsigned_int cs)
          else map_option int (unsigned_int (c # cs)))"

subsection \<open>What the surroundings decide\<close>

text \<open>
  Library functions and outside events that the repository's code calls but does not
  define are parameters of the model: the parsers of the standard library, the
  rendering of values that are not plain text, the identifiers drawn for sale rows,
  the database's clock and the point at which the database driver fails, if it does.
\<close>

record env =
  float_of_str :: "string \<Rightarrow> rat option"
    \<comment> \<open>\<open>float(s)\<close> for a string; \<open>None\<close> is \<open>ValueError\<close>\<close>
  repr_of :: "pyval \<Rightarrow> string"
    \<comment> \<open>\<open>str(v)\<close> for a float, a list or a dictionary\<close>
  json_loads :: "string \<Rightarrow> pyval option"
    \<comment> \<open>\<open>json.loads\<close>; \<open>None\<close> is \<open>JSONDecodeError\<close>\<close>
  generated_id :: "nat \<Rightarrow> int"
    \<comment> \<open>what the \<open>n\<close>-th call of \<open>_generate_id\<close> in an operation returns\<close>
  curtime :: nat
    \<comment> \<open>\<open>CURTIME()\<close>\<close>
  fail_at :: "nat option"
    \<comment> \<open>\<open>Some k\<close>: the \<open>k\<close>-th driver call of the operation raises
        \<open>mysql.connector.Error\<close> (call 0 takes the connection from the pool)\<close>

text \<open>\<open>str(n)\<close> for an integer.\<close>

fun nat_digits :: "nat \<Rightarrow> string" where
  "nat_digits n =
     (if n < 10 then [char_of (48 + n)]
      else nat_digits (n div 10) @ [char_of (48 + n mod 10)])"

definition int_str :: "int \<Rightarrow> string" where
  "int_str i = (if i < 0 then CHR ''-'' # nat_digits (nat (- i)) else nat_digits (nat i))"

text \<open>\<open>str(v)\<close>\<close>

definition py_str :: "env \<Rightarrow> pyval \<Rightarrow> string" where
  "py_str e v =
     (case v of
        PStr s \<Rightarrow> s
      | PNone \<Rightarrow> ''None''
      | PBool b \<Rightarrow> (if b then ''True'' else ''False'')
      | PInt i \<Rightarrow> int_str i
      | _ \<Rightarrow> repr_of e v)"

text \<open>\<open>float(v)\<close>\<close>

definition py_float :: "env \<Rightarrow> pyval \<Rightarrow> error + rat" where
  "py_float e v =
     (case v of
        PFloat r \<Rightarrow> Inr r
      | PInt i \<Rightarrow> Inr (of_int i)
      | PBool b \<Rightarrow> Inr (if b then 1 else 0)
      | PStr s \<Rightarrow> (case float_of_str e s of Some r \<Rightarrow> Inr r | None \<Rightarrow> Inl ValueError)
      | _ \<Rightarrow> Inl TypeError)"

section \<open>Driver compatibility check (model.py)\<close>

text \<open>\<open>version.split(".")[0]\<close>: the text before the first dot.\<close>

definition first_component :: "string \<Rightarrow> string" where
  "first_component version = takeWhile (\<lambda>c. c \<noteq> CHR ''.'') version"

text \<open>
  \<open>_validate_mysql_connector\<close>, as a function of the driver's \<open>__version__\<close>
  string (the empty string when the attribute is absent).
\<close>

definition major_of :: "string \<Rightarrow> int" where
  "major_of version =
     (case py_int_of_str (first_component version) of Some n \<Rightarrow> n | None \<Rightarrow> 0)"

definition validate_mysql_connector :: "string \<Rightarrow> error + unit" where
  "validate_mysql_connector version =
     (if version = [] then Inr ()
      else let major = major_of version
           in if major \<noteq> 0 \<and> major < 8 then Inl DatabaseError else Inr ())"

section \<open>The state the model layer works on (model.py)\<close>

subsection \<open>Cache file\<close>

text \<open>
  \<open>products_cache.json\<close>, seen through what \<open>Path.exists\<close>, \<open>open\<close> and
  \<open>json.load\<close> make of it: the path does not exist; the path cannot be examined
  (\<open>stat\<close> fails with an error that \<open>Path.exists\<close> does not take for absence, such
  as the \<open>PermissionError\<close> of a directory that may not be searched, and raises it);
  the file exists but cannot be opened or decoded; its text is not JSON; or it is the JSON
  text of a value. \<open>json.dump\<close> followed by \<open>json.load\<close> gives back the value that
  was written.
\<close>

datatype cache_file = Missing | Inaccessible | Unreadable | Garbage | Encoded pyval

text \<open>What an attempt to overwrite the file does.\<close>

datatype write_outcome =
    WriteOk         \<comment> \<open>the new text replaces the old\<close>
  | OpenFails       \<comment> \<open>\<open>open(..., "w")\<close> raises; the file stays as it is\<close>
  | WriteFails      \<comment> \<open>the file is truncated and the write raises part-way\<close>

subsection \<open>Database tables\<close>

text \<open>
  A row of \<open>products\<close> with the columns the queries select. The identifier and the
  stock are typed; the other columns are carried as the driver returns them.
\<close>

record product_row =
  p_id :: int
  p_sku :: pyval
  p_name :: pyval
  p_stock :: rat
  p_category :: pyval
  p_cost_price :: pyval
  p_sell_price :: pyval
  p_description :: pyval
  p_barcode :: pyval
  p_gst :: pyval
  p_gst_rate :: pyval
  p_status :: pyval
  p_deduct_unit :: pyval

record sale_row =
  s_id :: int
  s_prod_id :: pyval
  s_method_type :: string
  s_amount :: pyval
  s_qty :: pyval

record attendance_row =
  a_id :: int
  a_staff_id :: int
  a_time_in :: nat
  a_time_out :: "nat option"
  a_date :: nat

text \<open>
  What the driver was asked to do, in order: the trace by which a query of the source of
  truth, a commit or a rollback is observed.
\<close>

datatype statement =
    SelectByBarcode string
  | InsertSale sale_row
  | UpdateStock rat pyval
  | UpdateTimeOut int

datatype event =
    Connect
  | ConnectFailed
  | Begin
  | Exec statement
  | ExecFailed statement
  | Commit
  | CommitFailed
  | Rollback
  | Close

record world =
  cache :: cache_file
  disk :: write_outcome
  products :: "product_row list"
  sales :: "sale_row list"
  attendance :: "attendance_row list"
  log :: "event list"

definition emit :: "event list \<Rightarrow> world \<Rightarrow> world" where
  "emit evs w = w\<lparr>log := log w @ evs\<rparr>"

section \<open>Product cache (model.py)\<close>

text \<open>\<open>self.cache_path.exists()\<close>\<close>

definition path_exists :: "cache_file \<Rightarrow> error + bool" where
  "path_exists f =
     (case f of
        Missing \<Rightarrow> Inr False
      | Inaccessible \<Rightarrow> Inl OSError
      | _ \<Rightarrow> Inr True)"

text \<open>The body of the \<open>try\<close> in \<open>load_cache\<close>: open the file and parse it.\<close>

definition read_cache_file :: "cache_file \<Rightarrow> error + pyval" where
  "read_cache_file f =
     (case f of
        Missing \<Rightarrow> Inl OSError
      | Inaccessible \<Rightarrow> Inl OSError
      | Unreadable \<Rightarrow> Inl OSError
      | Garbage \<Rightarrow> Inl JSONDecodeError
      | Encoded v \<Rightarrow> Inr v)"

text \<open>
  \<open>load_cache\<close>. The test for the file stands before the \<open>try\<close>, so what it raises
  reaches the caller; what the body of the \<open>try\<close> raises is caught.
\<close>

definition load_cache :: "world \<Rightarrow> error + pyval list" where
  "load_cache w =
     (case path_exists (cache w) of
        Inl exc \<Rightarrow> Inl exc
      | Inr present \<Rightarrow>
          if \<not> present then Inr []
          else (case read_cache_file (cache w) of
                  Inl exc \<Rightarrow> Inr []
                | Inr data \<Rightarrow> (case data of PList xs \<Rightarrow> Inr xs | _ \<Rightarrow> Inr [])))"

text \<open>\<open>save_cache\<close>: a failure to write is swallowed.\<close>

definition save_cache :: "world \<Rightarrow> pyval list \<Rightarrow> world" where
  "save_cache w prods =
     (case disk w of
        WriteOk \<Rightarrow> w\<lparr>cache := Encoded (PList prods)\<rparr>
      | OpenFails \<Rightarrow> w
      | WriteFails \<Rightarrow> w\<lparr>cache := Garbage\<rparr>)"

text \<open>\<open>_find_in_cache_by_barcode\<close>; the result \<open>None\<close> is Python's \<open>None\<close>.\<close>

fun find_barcode :: "env \<Rightarrow> string \<Rightarrow> pyval list \<Rightarrow> error + pyval option" where
  "find_barcode e barcode [] = Inr None"
| "find_barcode e barcode (product # rest) =
     (case py_get product ''barcode'' of
        Inl exc \<Rightarrow> Inl exc
      | Inr b \<Rightarrow> if py_str e b = barcode then Inr (Some product)
                 else find_barcode e barcode rest)"

definition find_in_cache_by_barcode :: "env \<Rightarrow> world \<Rightarrow> string \<Rightarrow> error + pyval option" where
  "find_in_cache_by_barcode e w barcode =
     (if barcode = [] then Inr None
      else case load_cache w of
             Inl exc \<Rightarrow> Inl exc
           | Inr cached \<Rightarrow> find_barcode e barcode cached)"

text \<open>
  \<open>_merge_into_cache\<close>. The dictionary comprehension over the loaded cache and the loop
  over the incoming products both fill one dictionary, which keeps its keys in the order
  of their first insertion.
\<close>

fun cache_dict :: "env \<Rightarrow> (string \<times> pyval) list \<Rightarrow> pyval list \<Rightarrow> error + (string \<times> pyval) list" where
  "cache_dict e acc [] = Inr acc"
| "cache_dict e acc (p # ps) =
     (case py_get p ''barcode'' of
        Inl exc \<Rightarrow> Inl exc
      | Inr b \<Rightarrow> if truthy b then cache_dict e (AList.update (py_str e b) p acc) ps
                 else cache_dict e acc ps)"

fun merge_loop :: "env \<Rightarrow> (string \<times> pyval) list \<Rightarrow> pyval list \<Rightarrow> error + (string \<times> pyval) list" where
  "merge_loop e acc [] = Inr acc"
| "merge_loop e acc (product # rest) =
     (case py_get product ''barcode'' of
        Inl exc \<Rightarrow> Inl exc
      | Inr b \<Rightarrow> let barcode = py_str e b
                 in if barcode \<noteq> [] then merge_loop e (AList.update barcode product acc) rest
                    else merge_loop e acc rest)"

definition merge_into_cache :: "env \<Rightarrow> world \<Rightarrow> pyval list \<Rightarrow> (error + unit) \<times> world" where
  "merge_into_cache e w prods =
     (if prods = [] then (Inr (), w)
      else case load_cache w of
             Inl exc \<Rightarrow> (Inl exc, w)
           | Inr cached \<Rightarrow>
               (case cache_dict e [] cached of
                  Inl exc \<Rightarrow> (Inl exc, w)
                | Inr c \<Rightarrow>
                    (case merge_loop e c prods of
                       Inl exc \<Rightarrow> (Inl exc, w)
                     | Inr c' \<Rightarrow> (Inr (), save_cache w (map snd c')))))"

section \<open>Product lookup (model.py)\<close>

text \<open>The dictionary the cursor returns for a row of the \<open>SELECT\<close> by barcode.\<close>

definition row_dict :: "product_row \<Rightarrow> (string \<times> pyval) list" where
  "row_dict r =
     [(''id'', PInt (p_id r)), (''sku'', p_sku r), (''name'', p_name r),
      (''stock'', PFloat (p_stock r)), (''category'', p_category r),
      (''cost_price'', p_cost_price r), (''sell_price'', p_sell_price r),
      (''description'', p_description r), (''barcode'', p_barcode r),
      (''gst'', p_gst r), (''gst_rate'', p_gst_rate r), (''status'', p_status r),
      (''deduct_unit'', p_deduct_unit r)]"

text \<open>\<open>_normalize_product\<close>: one round of its loop, and the function.\<close>

definition normalize_key :: "env \<Rightarrow> (string \<times> pyval) list \<Rightarrow> string \<Rightarrow> (string \<times> pyval) list" where
  "normalize_key e normalized key =
     (case map_of normalized key of
        None \<Rightarrow> normalized
      | Some v \<Rightarrow>
          if v = PNone then normalized
          else (case py_float e v of
                  Inr r \<Rightarrow> AList.update key (PFloat r) normalized
                | Inl exc \<Rightarrow> normalized))"

definition normalize_product :: "env \<Rightarrow> (string \<times> pyval) list \<Rightarrow> (string \<times> pyval) list" where
  "normalize_product e row =
     (if row = [] then []
      else foldl (normalize_key e) row [''stock'', ''cost_price'', ''sell_price'', ''gst_rate''])"

text \<open>
  \<open>fetch_product_by_barcode\<close>. The query runs on a connection of its own, outside any
  transaction: driver call 0 takes the connection, call 1 executes the \<open>SELECT\<close>, whose
  error is not wrapped.
\<close>

definition fetch_product_by_barcode ::
    "env \<Rightarrow> world \<Rightarrow> string \<Rightarrow> (error + pyval option) \<times> world" where
  "fetch_product_by_barcode e w barcode =
     (case find_in_cache_by_barcode e w barcode of
        Inl exc \<Rightarrow> (Inl exc, w)
      | Inr cached \<Rightarrow>
          if (case cached of Some c \<Rightarrow> truthy c | None \<Rightarrow> False) then (Inr cached, w)
          else if fail_at e = Some 0 then (Inl DatabaseError, emit [ConnectFailed] w)
          else if fail_at e = Some 1 then
            (Inl MySQLError, emit [Connect, ExecFailed (SelectByBarcode barcode), Close] w)
          else
            let w1 = emit [Connect, Exec (SelectByBarcode barcode), Close] w
            in (case find (\<lambda>r. p_barcode r = PStr barcode) (products w) of
                  None \<Rightarrow> (Inr None, w1)
                | Some row \<Rightarrow>
                    let product = PDict (normalize_product e (row_dict row))
                    in if truthy product then
                         (case merge_into_cache e w1 [product] of
                            (Inl exc, w2) \<Rightarrow> (Inl exc, w2)
                          | (Inr u, w2) \<Rightarrow> (Inr (Some product), w2))
                       else (Inr (Some product), w1)))"

section \<open>Sales (model.py)\<close>

text \<open>
  A parameter the driver cannot convert to a MySQL value makes \<open>execute\<close> raise a
  \<open>mysql.connector.Error\<close>, as does the failure the surroundings schedule.
\<close>

fun convertible :: "pyval \<Rightarrow> bool" where
  "convertible (PList xs) = False"
| "convertible (PDict kvs) = False"
| "convertible v = True"

definition driver_fails :: "env \<Rightarrow> nat \<Rightarrow> pyval list \<Rightarrow> bool" where
  "driver_fails e k params = (fail_at e = Some k \<or> \<not> list_all convertible params)"

text \<open>
  \<open>WHERE id = %s\<close> against the integer key: a number matches the row of that number and
  \<open>NULL\<close> matches none. A text parameter is taken to match no row.
\<close>

fun sql_id_eq :: "pyval \<Rightarrow> int \<Rightarrow> bool" where
  "sql_id_eq (PInt i) k = (i = k)"
| "sql_id_eq (PBool b) k = ((if b then 1 else 0) = k)"
| "sql_id_eq (PFloat r) k = (r = of_int k)"
| "sql_id_eq v k = False"

text \<open>\<open>UPDATE products SET stock = GREATEST(0, stock - %s) WHERE id = %s\<close>\<close>

definition update_stock :: "rat \<Rightarrow> pyval \<Rightarrow> product_row list \<Rightarrow> product_row list" where
  "update_stock x pid rows =
     map (\<lambda>r. if sql_id_eq pid (p_id r) then r\<lparr>p_stock := max 0 (p_stock r - x)\<rparr> else r) rows"

text \<open>\<open>d.get(k, default)\<close> on the entries of a dictionary.\<close>

definition dict_get :: "(string \<times> pyval) list \<Rightarrow> string \<Rightarrow> pyval \<Rightarrow> pyval" where
  "dict_get kvs k d = (case map_of kvs k of Some v \<Rightarrow> v | None \<Rightarrow> d)"

text \<open>The row \<open>record_sale\<close> inserts for an item, under the identifier drawn for it.\<close>

definition sale_row_of :: "string \<Rightarrow> int \<Rightarrow> (string \<times> pyval) list \<Rightarrow> sale_row" where
  "sale_row_of method sale_id item =
     \<lparr>s_id = sale_id, s_prod_id = dict_get item ''id'' PNone, s_method_type = method,
      s_amount = dict_get item ''amount'' (PFloat 0), s_qty = dict_get item ''qty'' (PFloat 0)\<rparr>"

text \<open>
  \<open>float(item.get("deduct_unit") or 1.0)\<close> and \<open>float(item.get("qty") or 0.0)\<close>.
\<close>

definition deduct_unit_of :: "env \<Rightarrow> (string \<times> pyval) list \<Rightarrow> error + rat" where
  "deduct_unit_of e item = py_float e (py_or (dict_get item ''deduct_unit'' PNone) (PFloat 1))"

definition qty_of :: "env \<Rightarrow> (string \<times> pyval) list \<Rightarrow> error + rat" where
  "qty_of e item = py_float e (py_or (dict_get item ''qty'' PNone) (PFloat 0))"

text \<open>
  One round of the loop of \<open>record_sale\<close>, on the uncommitted state of the transaction:
  \<open>k\<close> is the number of the driver call the \<open>INSERT\<close> makes, \<open>n\<close> counts the items.
  The result names the exception that ended the round, if one did.
\<close>

definition sale_item :: "env \<Rightarrow> string \<Rightarrow> nat \<Rightarrow> nat \<Rightarrow> world \<Rightarrow> pyval \<Rightarrow> error option \<times> world" where
  "sale_item e method k n w item =
     (case item of
        PDict kvs \<Rightarrow>
          let row = sale_row_of method (generated_id e n) kvs
          in if driver_fails e k [s_prod_id row, s_amount row, s_qty row] then
               (Some MySQLError, emit [ExecFailed (InsertSale row)] w)
             else
               let w1 = emit [Exec (InsertSale row)] (w\<lparr>sales := sales w @ [row]\<rparr>)
               in (case deduct_unit_of e kvs of
                     Inl exc \<Rightarrow> (Some exc, w1)
                   | Inr deduct_unit \<Rightarrow>
                       (case qty_of e kvs of
                          Inl exc \<Rightarrow> (Some exc, w1)
                        | Inr qty \<Rightarrow>
                            let pid = dict_get kvs ''id'' PNone;
                                stmt = UpdateStock (qty * deduct_unit) pid
                            in if driver_fails e (k + 1) [pid] then
                                 (Some MySQLError, emit [ExecFailed stmt] w1)
                               else
                                 (None, emit [Exec stmt]
                                    (w1\<lparr>products :=
                                           update_stock (qty * deduct_unit) pid (products w1)\<rparr>))))
      | _ \<Rightarrow> (Some AttributeError, w))"

fun sale_loop :: "env \<Rightarrow> string \<Rightarrow> nat \<Rightarrow> nat \<Rightarrow> world \<Rightarrow> pyval list \<Rightarrow> error option \<times> world" where
  "sale_loop e method k n w [] = (None, w)"
| "sale_loop e method k n w (item # rest) =
     (case sale_item e method k n w item of
        (Some exc, w') \<Rightarrow> (Some exc, w')
      | (None, w') \<Rightarrow> sale_loop e method (k + 2) (n + 1) w' rest)"

text \<open>
  Leaving a transaction without a commit, by \<open>rollback\<close> or by handing the connection
  back to the pool: the tables are those of before, the trace stays.
\<close>

definition discard :: "world \<Rightarrow> world \<Rightarrow> world" where
  "discard w0 w = w\<lparr>products := products w0, sales := sales w0, attendance := attendance w0\<rparr>"

text \<open>
  \<open>record_sale\<close>: driver call 0 takes the connection, calls \<open>1 .. 2 * len(items)\<close>
  are the statements, the call after them is the commit.
\<close>

definition record_sale :: "env \<Rightarrow> world \<Rightarrow> pyval list \<Rightarrow> string \<Rightarrow> (error + bool) \<times> world" where
  "record_sale e w items method =
     (if items = [] then (Inr False, w)
      else if fail_at e = Some 0 then (Inl DatabaseError, emit [ConnectFailed] w)
      else
        (case sale_loop e method 1 0 (emit [Connect, Begin] w) items of
           (Some exc, w') \<Rightarrow>
             if exc = MySQLError then (Inl DatabaseError, emit [Rollback, Close] (discard w w'))
             else (Inl exc, emit [Close] (discard w w'))
         | (None, w') \<Rightarrow>
             if fail_at e = Some (2 * length items + 1) then
               (Inl DatabaseError, emit [CommitFailed, Rollback, Close] (discard w w'))
             else (Inr True, emit [Commit, Close] w')))"

section \<open>Attendance (model.py)\<close>

text \<open>
  \<open>UPDATE attendance SET time_out = CURTIME() WHERE id = %s\<close>, and the number of rows
  it reports as affected: the matching rows whose value changes.
\<close>

definition set_time_out :: "nat \<Rightarrow> int \<Rightarrow> attendance_row list \<Rightarrow> attendance_row list" where
  "set_time_out now aid rows =
     map (\<lambda>r. if a_id r = aid then r\<lparr>a_time_out := Some now\<rparr> else r) rows"

definition affected_rows :: "nat \<Rightarrow> int \<Rightarrow> attendance_row list \<Rightarrow> nat" where
  "affected_rows now aid rows =
     length (filter (\<lambda>r. a_id r = aid \<and> a_time_out r \<noteq> Some now) rows)"

text \<open>\<open>clock_out\<close>: driver call 0 takes the connection, 1 is the update, 2 the commit.\<close>

definition clock_out :: "env \<Rightarrow> world \<Rightarrow> int \<Rightarrow> (error + bool) \<times> world" where
  "clock_out e w attendance_id =
     (if fail_at e = Some 0 then (Inl DatabaseError, emit [ConnectFailed] w)
      else
        let w1 = emit [Connect, Begin] w;
            stmt = UpdateTimeOut attendance_id
        in if fail_at e = Some 1 then
             (Inl DatabaseError, emit [ExecFailed stmt, Rollback, Close] w1)
           else
             let rowcount = affected_rows (curtime e) attendance_id (attendance w1);
                 w2 = emit [Exec stmt]
                        (w1\<lparr>attendance := set_time_out (curtime e) attendance_id (attendance w1)\<rparr>)
             in if fail_at e = Some 2 then
                  (Inl DatabaseError, emit [CommitFailed, Rollback, Close] (discard w w2))
                else (Inr (rowcount > 0), emit [Commit, Close] w2))"

section \<open>Cart and payment terminal (uipos.py)\<close>

text \<open>\<open>_safe_float\<close>\<close>

definition safe_float :: "env \<Rightarrow> string \<Rightarrow> rat" where
  "safe_float e v = (case float_of_str e v of Some r \<Rightarrow> r | None \<Rightarrow> 0)"

text \<open>
  A row of the cart table: the text of its description, quantity and price cells, each
  absent when the table has no item there.
\<close>

record cart_row =
  desc_cell :: "string option"
  qty_cell :: "string option"
  price_cell :: "string option"

text \<open>
  \<open>_collect_cart_items\<close>, from row \<open>i\<close> on; \<open>row_products\<close> maps a row number to
  the product put there. A row without a description is skipped; quantity and price are
  read from their cells.
\<close>

definition blank_row :: "cart_row \<Rightarrow> bool" where
  "blank_row r = (case desc_cell r of None \<Rightarrow> True | Some t \<Rightarrow> py_strip t = [])"

definition cell_qty :: "env \<Rightarrow> cart_row \<Rightarrow> rat" where
  "cell_qty e r = (case qty_cell r of Some t \<Rightarrow> safe_float e t | None \<Rightarrow> 0)"

definition cell_price :: "env \<Rightarrow> cart_row \<Rightarrow> rat" where
  "cell_price e r = (case price_cell r of Some t \<Rightarrow> safe_float e t | None \<Rightarrow> 0)"

fun collect_rows ::
    "env \<Rightarrow> (nat \<Rightarrow> (string \<times> pyval) list option) \<Rightarrow> nat \<Rightarrow> cart_row list \<Rightarrow> pyval list" where
  "collect_rows e row_products i [] = []"
| "collect_rows e row_products i (r # rs) =
     (if blank_row r then collect_rows e row_products (i + 1) rs
      else
        let qty = cell_qty e r;
            price = cell_price e r;
            amount = qty * price;
            product = (case row_products i of Some d \<Rightarrow> d | None \<Rightarrow> [])
        in PDict [(''id'', dict_get product ''id'' PNone),
                  (''name'', dict_get product ''name'' PNone),
                  (''barcode'', dict_get product ''barcode'' PNone),
                  (''qty'', PFloat qty),
                  (''price'', PFloat price),
                  (''amount'', PFloat amount),
                  (''deduct_unit'', py_or (dict_get product ''deduct_unit'' PNone) (PFloat 1))]
           # collect_rows e row_products (i + 1) rs)"

definition collect_cart_items ::
    "env \<Rightarrow> (nat \<Rightarrow> (string \<times> pyval) list option) \<Rightarrow> cart_row list \<Rightarrow> pyval list" where
  "collect_cart_items e row_products table = collect_rows e row_products 0 table"

text \<open>\<open>str.upper\<close> and the substring test \<open>sub in s\<close>.\<close>

definition upper_char :: "char \<Rightarrow> char" where
  "upper_char c =
     (let n = of_char c :: nat in if 97 \<le> n \<and> n \<le> 122 then char_of (n - 32) else c)"

definition py_upper :: "string \<Rightarrow> string" where
  "py_upper s = map upper_char s"

fun py_in :: "string \<Rightarrow> string \<Rightarrow> bool" where
  "py_in sub [] = (sub = [])"
| "py_in sub (c # cs) = (take (length sub) (c # cs) = sub \<or> py_in sub cs)"

text \<open>
  \<open>_interpret_linkly_response\<close>, on a response of ASCII bytes, which
  \<open>decode("utf-8")\<close> leaves as they are.
\<close>

definition interpret_linkly_response :: "env \<Rightarrow> string \<Rightarrow> error + bool \<times> string option" where
  "interpret_linkly_response e response =
     (if response = [] then Inr (False, Some ''No response from Linkly.'')
      else
        let text = py_strip response
        in (case json_loads e text of
              None \<Rightarrow>
                let upper = py_upper text
                in if py_in ''APPROVED'' upper \<or> py_in ''SUCCESS'' upper then Inr (True, None)
                   else if py_in ''DECLINED'' upper \<or> py_in ''FAILED'' upper \<or> py_in ''ERROR'' upper
                     then Inr (False, Some text)
                   else Inr (False, Some (''Unrecognized Linkly response: '' @ text))
            | Some parsed \<Rightarrow>
                (case parsed of
                   PDict kvs \<Rightarrow>
                     let approved =
                           truthy (py_or (dict_get kvs ''approved'' PNone)
                                         (dict_get kvs ''success'' PNone))
                     in if approved then Inr (True, None)
                        else
                          let reason =
                                py_or (dict_get kvs ''message'' PNone)
                                  (py_or (dict_get kvs ''responseText'' PNone)
                                         (PStr ''Card payment declined.''))
                          in Inr (False, Some (py_str e reason))
                 | _ \<Rightarrow> Inl AttributeError)))"

section \<open>What a response is to mention\<close>

text \<open>
  The specification's keyword rule for a response that is not JSON: a word is mentioned when
  it occurs somewhere in the text, whatever the case of the text's letters.
\<close>

definition mentions :: "string \<Rightarrow> string \<Rightarrow> bool" where
  "mentions word text = (\<exists>pre post. py_upper text = pre @ word @ post)"

section \<open>What a sale is to store\<close>

text \<open>
  The statements of the specification about a sale, as functions of the item list: the
  rows to insert, one per item in input order, and the stock after each item's product
  has been decremented by quantity times deduct-unit, floored at zero. They are compared
  with \<open>record_sale\<close> below.
\<close>

definition item_entries :: "pyval \<Rightarrow> (string \<times> pyval) list" where
  "item_entries item = (case item of PDict kvs \<Rightarrow> kvs | _ \<Rightarrow> [])"

definition item_decrement :: "env \<Rightarrow> pyval \<Rightarrow> rat" where
  "item_decrement e item =
     (case qty_of e (item_entries item) of
        Inr q \<Rightarrow> (case deduct_unit_of e (item_entries item) of Inr d \<Rightarrow> q * d | Inl exc \<Rightarrow> 0)
      | Inl exc \<Rightarrow> 0)"

fun expected_rows :: "env \<Rightarrow> string \<Rightarrow> nat \<Rightarrow> pyval list \<Rightarrow> sale_row list" where
  "expected_rows e method n [] = []"
| "expected_rows e method n (item # rest) =
     sale_row_of method (generated_id e n) (item_entries item)
       # expected_rows e method (n + 1) rest"

fun expected_stock :: "env \<Rightarrow> product_row list \<Rightarrow> pyval list \<Rightarrow> product_row list" where
  "expected_stock e rows [] = rows"
| "expected_stock e rows (item # rest) =
     expected_stock e
       (update_stock (item_decrement e item) (dict_get (item_entries item) ''id'' PNone) rows)
       rest"


fun is_exec :: "event \<Rightarrow> bool" where
  "is_exec (Exec stmt) = True"
| "is_exec ev = False"

section \<open>What a merge is to leave in the cache\<close>

text \<open>
  The statements of the specification about \<open>mergeByBarcode\<close>, as functions: the barcode
  of an entry and the text that keys it, a mapping filled entry by entry under those keys
  (a later entry replaces an earlier one of the same key, which keeps its place), and the
  list a merge persists: the mapping built from the cached entries that have a barcode,
  overwritten with the incoming products that have a key. They are compared with
  \<open>_merge_into_cache\<close> below.
\<close>

definition barcode_of :: "pyval \<Rightarrow> pyval" where
  "barcode_of p = dict_get (item_entries p) ''barcode'' PNone"

definition barcode_key :: "env \<Rightarrow> pyval \<Rightarrow> string" where
  "barcode_key e p = py_str e (barcode_of p)"

fun is_dict :: "pyval \<Rightarrow> bool" where
  "is_dict (PDict kvs) = True"
| "is_dict v = False"

fun puts :: "env \<Rightarrow> (string \<times> pyval) list \<Rightarrow> pyval list \<Rightarrow> (string \<times> pyval) list" where
  "puts e acc [] = acc"
| "puts e acc (p # ps) = puts e (AList.update (barcode_key e p) p acc) ps"

definition merged :: "env \<Rightarrow> pyval list \<Rightarrow> pyval list \<Rightarrow> pyval list" where
  "merged e cached prods =
     map snd (puts e (puts e [] (filter (\<lambda>p. truthy (barcode_of p)) cached))
                     (filter (\<lambda>p. barcode_key e p \<noteq> []) prods))"

text \<open>An association list whose every entry sits under its own barcode key.\<close>

definition keyed :: "env \<Rightarrow> (string \<times> pyval) list \<Rightarrow> bool" where
  "keyed e d = list_all (\<lambda>kp. barcode_key e (snd kp) = fst kp) d"

section \<open>Example data\<close>

text \<open>Surroundings in which nothing fails and no text parses, and an empty state.\<close>

definition ex_env :: env where
  "ex_env = \<lparr>float_of_str = (\<lambda>s. None), repr_of = (\<lambda>v. ''?''), json_loads = (\<lambda>s. None),
              generated_id = (\<lambda>n. 1000 + int n), curtime = 61200, fail_at = None\<rparr>"

definition ex_world :: world where
  "ex_world = \<lparr>cache = Missing, disk = WriteOk, products = [], sales = [], attendance = [],
                log = []\<rparr>"

text \<open>Two attendance rows: staff 3 is clocked in, staff 4 has clocked out.\<close>

definition ex_attendance :: "attendance_row list" where
  "ex_attendance =
     [\<lparr>a_id = 7, a_staff_id = 3, a_time_in = 32400, a_time_out = None, a_date = 20251103\<rparr>,
      \<lparr>a_id = 8, a_staff_id = 4, a_time_in = 32400, a_time_out = Some 50000, a_date = 20251103\<rparr>]"

text \<open>
  What \<open>json.loads\<close> returns on the texts used as examples below, and surroundings
  with that parser.
\<close>

definition ex_json_loads :: "string \<Rightarrow> pyval option" where
  \<open>ex_json_loads s =
     (if s = ''{"approved": true}'' then Some (PDict [(''approved'', PBool True)])
      else if s = ''{"success": false, "message": "insufficient funds"}'' then
        Some (PDict [(''success'', PBool False), (''message'', PStr ''insufficient funds'')])
      else if s = ''{"approved": "no"}'' then Some (PDict [(''approved'', PStr ''no'')])
      else if s = ''123'' then Some (PInt 123)
      else None)\<close>

definition ex_terminal_env :: env where
  "ex_terminal_env = ex_env\<lparr>json_loads := ex_json_loads\<rparr>"

text \<open>A cache file with two products, and surroundings in which the database is down.\<close>

definition ex_cached_a :: pyval where
  "ex_cached_a = PDict [(''id'', PInt 1), (''name'', PStr ''Tea''), (''barcode'', PStr ''111''),
                        (''stock'', PFloat 5)]"

definition ex_cached_b :: pyval where
  "ex_cached_b = PDict [(''id'', PInt 2), (''name'', PStr ''Rice''), (''barcode'', PStr ''955''),
                        (''stock'', PFloat 9)]"

definition ex_cache_world :: world where
  "ex_cache_world = ex_world\<lparr>cache := Encoded (PList [ex_cached_a, ex_cached_b])\<rparr>"

definition ex_env_db_down :: env where
  "ex_env_db_down = ex_env\<lparr>fail_at := Some 0\<rparr>"

text \<open>
  A shop with three products, a cart of three items (two units of product 1 at deduct-unit
  2, ten of product 2, one of product 3), and surroundings in which driver call 3, the
  \<open>INSERT\<close> for the second item, fails.
\<close>

definition ex_product :: "int \<Rightarrow> string \<Rightarrow> rat \<Rightarrow> product_row" where
  "ex_product i bc st =
     \<lparr>p_id = i, p_sku = PNone, p_name = PStr ''item'', p_stock = st, p_category = PNone,
      p_cost_price = PFloat 1, p_sell_price = PFloat 2, p_description = PNone,
      p_barcode = PStr bc, p_gst = PInt 0, p_gst_rate = PFloat 0, p_status = PStr ''active'',
      p_deduct_unit = PInt 1\<rparr>"

definition ex_shop :: world where
  "ex_shop = ex_world\<lparr>products := [ex_product 1 ''111'' 5, ex_product 2 ''222'' 3,
                                     ex_product 3 ''333'' 8]\<rparr>"

definition ex_item1 :: pyval where
  "ex_item1 = PDict [(''id'', PInt 1), (''qty'', PFloat 2), (''price'', PFloat 3),
                     (''amount'', PFloat 6), (''deduct_unit'', PInt 2)]"

definition ex_item2 :: pyval where
  "ex_item2 = PDict [(''id'', PInt 2), (''qty'', PFloat 10), (''price'', PFloat 1),
                     (''amount'', PFloat 10), (''deduct_unit'', PFloat 1)]"

definition ex_item3 :: pyval where
  "ex_item3 = PDict [(''id'', PInt 3), (''qty'', PFloat 1), (''price'', PFloat 4),
                     (''amount'', PFloat 4), (''deduct_unit'', PFloat 1)]"


text \<open>
  A cart with two filled rows and an empty one between them, the products put on the
  filled rows, and surroundings whose \<open>float\<close> reads the texts of the cells. The last
  item is one a caller could pass to \<open>record_sale\<close> directly: its amount is not its
  quantity times its price.
\<close>

definition ex_float_of_str :: "string \<Rightarrow> rat option" where
  "ex_float_of_str s =
     (if s = ''2'' then Some 2 else if s = ''3.50'' then Some (7 / 2)
      else if s = ''1'' then Some 1 else if s = ''4.00'' then Some 4 else None)"

definition ex_cart_env :: env where
  "ex_cart_env = ex_env\<lparr>float_of_str := ex_float_of_str\<rparr>"

definition ex_table :: "cart_row list" where
  "ex_table =
     [\<lparr>desc_cell = Some ''Tea'', qty_cell = Some ''2'', price_cell = Some ''3.50''\<rparr>,
      \<lparr>desc_cell = Some '' '', qty_cell = None, price_cell = None\<rparr>,
      \<lparr>desc_cell = Some ''Rice'', qty_cell = Some ''1'', price_cell = Some ''4.00''\<rparr>]"

definition ex_row_products :: "nat \<Rightarrow> (string \<times> pyval) list option" where
  "ex_row_products i =
     (if i = 0 then Some [(''id'', PInt 1), (''name'', PStr ''Tea''), (''barcode'', PStr ''111''),
                          (''deduct_unit'', PInt 2)]
      else if i = 2 then Some [(''id'', PInt 3), (''name'', PStr ''Rice''),
                               (''barcode'', PStr ''333''), (''deduct_unit'', PNone)]
      else None)"

definition ex_item_wrong_amount :: pyval where
  "ex_item_wrong_amount =
     PDict [(''id'', PInt 1), (''qty'', PFloat 2), (''price'', PFloat 3), (''amount'', PFloat 100),
            (''deduct_unit'', PFloat 1)]"

text \<open>
  Snapshots of one product at three prices, two products without a barcode (one lacks the
  field, one has \<open>None\<close> there), and a cache file that holds the oldest snapshot and an
  entry without a barcode.
\<close>

definition ex_old_tea :: pyval where
  "ex_old_tea = PDict [(''barcode'', PStr ''111''), (''name'', PStr ''Tea''), (''sell_price'', PFloat 2)]"

definition ex_mid_tea :: pyval where
  "ex_mid_tea = PDict [(''barcode'', PStr ''111''), (''name'', PStr ''Tea''), (''sell_price'', PFloat (5 / 2))]"

definition ex_new_tea :: pyval where
  "ex_new_tea = PDict [(''barcode'', PStr ''111''), (''name'', PStr ''Tea''), (''sell_price'', PFloat 3)]"

definition ex_loose_a :: pyval where
  "ex_loose_a = PDict [(''name'', PStr ''Loose A'')]"

definition ex_loose_b :: pyval where
  "ex_loose_b = PDict [(''name'', PStr ''Loose B''), (''barcode'', PNone)]"

definition ex_ghost :: pyval where
  "ex_ghost = PDict [(''name'', PStr ''Ghost'')]"

definition ex_merge_world :: world where
  "ex_merge_world = ex_world\<lparr>cache := Encoded (PList [ex_old_tea, ex_ghost])\<rparr>"

definition ex_duplicate_world :: world where
  "ex_duplicate_world = ex_world\<lparr>cache := Encoded (PList [ex_old_tea, ex_new_tea])\<rparr>"

section \<open>Driver compatibility check: when it raises\<close>

text \<open>
  Claim C10, as the code has it. The check raises \<open>DatabaseError\<close> exactly when the
  first dot-separated component of the version string parses to an integer \<open>n\<close> that is
  not zero and is below 8; negative \<open>n\<close> raise as well. An empty version string, and one
  whose first component is not an integer, pass without error.
\<close>

theorem validate_mysql_connector_raises_iff:
  "validate_mysql_connector version =
     (if \<exists>n. py_int_of_str (first_component version) = Some n \<and> n \<noteq> 0 \<and> n < 8
      then Inl DatabaseError else Inr ())
   \<and> (version = [] \<longrightarrow> validate_mysql_connector version = Inr ())
   \<and> (py_int_of_str (first_component version) = None \<longrightarrow>
        validate_mysql_connector version = Inr ())"
proof -
  have empty: "py_int_of_str (first_component []) = None"
    by (simp add: first_component_def py_int_of_str_def py_strip_def)
  show ?thesis
    by (cases "py_int_of_str (first_component version)")
       (auto simp: validate_mysql_connector_def major_of_def empty)
qed

theorem validate_mysql_connector_raises_iff_witness:
  "validate_mysql_connector ''5.7.1'' = Inl DatabaseError
   \<and> validate_mysql_connector '''' = Inr ()
   \<and> validate_mysql_connector ''abc.1'' = Inr ()
   \<and> validate_mysql_connector ''8.0.33'' = Inr ()"
proof -
  have a: "py_int_of_str (first_component ''5.7.1'') = Some 5" by code_simp
  have b: "py_int_of_str (first_component ''abc.1'') = None" by code_simp
  have c: "py_int_of_str (first_component ''8.0.33'') = Some 8" by code_simp
  have d: "py_int_of_str (first_component []) = None" by code_simp
  show ?thesis
    using validate_mysql_connector_raises_iff [of "''5.7.1''"]
      validate_mysql_connector_raises_iff [of "''''"]
      validate_mysql_connector_raises_iff [of "''abc.1''"]
      validate_mysql_connector_raises_iff [of "''8.0.33''"]
    by (simp add: a b c d)
qed

text \<open>
  The version string \<open>-1.0\<close>: its first component parses to \<open>-1\<close>, which is not in the
  range from 1 to 7, and the check raises.
\<close>

theorem validate_mysql_connector_negative_major:
  "validate_mysql_connector ''-1.0'' = Inl DatabaseError
   \<and> py_int_of_str (first_component ''-1.0'') = Some (- 1)
   \<and> \<not> (1 \<le> (- 1 :: int))"
  by code_simp

section \<open>Loading the cache: what reaches the caller\<close>

text \<open>
  When the path of the cache file can be examined, \<open>load_cache\<close> raises nothing. It
  returns the stored list when the file holds the JSON text of a list, and the empty list
  when the file is missing, when reading or parsing it raises, and when the parsed value
  is not a list.
\<close>

lemma load_cache_swallows:
  assumes "cache w \<noteq> Inaccessible"
  shows "(\<forall>xs. cache w = Encoded (PList xs) \<longrightarrow> load_cache w = Inr xs)
   \<and> (cache w = Missing \<longrightarrow> load_cache w = Inr [])
   \<and> (\<forall>exc. read_cache_file (cache w) = Inl exc \<longrightarrow> load_cache w = Inr [])
   \<and> (\<forall>v. cache w = Encoded v \<and> (\<forall>xs. v \<noteq> PList xs) \<longrightarrow> load_cache w = Inr [])
   \<and> (\<exists>xs. load_cache w = Inr xs)"
  using assms
  by (auto simp: load_cache_def path_exists_def read_cache_file_def
           split: cache_file.splits pyval.splits)

lemma load_cache_raises_iff: "(\<exists>exc. load_cache w = Inl exc) = (cache w = Inaccessible)"
  by (auto simp: load_cache_def path_exists_def read_cache_file_def
           split: cache_file.splits pyval.splits)

text \<open>
  Claim C6. The claim asks that \<open>load_cache\<close> never raise, whatever the state of the
  backing file. The code wraps opening and parsing the file in a \<open>try\<close> that catches
  every exception, but tests \<open>self.cache_path.exists()\<close> before it. On a path that
  cannot be examined that test raises, and the error reaches the caller of \<open>load_cache\<close>
  instead of the empty list; through \<open>_find_in_cache_by_barcode\<close> it reaches the caller
  of \<open>fetch_product_by_barcode\<close> before any query is made. \<open>save_cache\<close>, whose
  whole body stands inside its \<open>try\<close>, raises nothing in the same state.
\<close>

theorem load_cache_raises_on_inaccessible_path:
  "load_cache (ex_world\<lparr>cache := Inaccessible\<rparr>) = Inl OSError
   \<and> fetch_product_by_barcode ex_env (ex_world\<lparr>cache := Inaccessible\<rparr>) ''955''
       = (Inl OSError, ex_world\<lparr>cache := Inaccessible\<rparr>)
   \<and> load_cache (ex_world\<lparr>cache := Unreadable\<rparr>) = Inr []
   \<and> load_cache (ex_world\<lparr>cache := Garbage\<rparr>) = Inr []
   \<and> load_cache ex_world = Inr []"
  by (simp add: load_cache_def path_exists_def read_cache_file_def find_in_cache_by_barcode_def
        fetch_product_by_barcode_def ex_world_def)

section \<open>Clocking out\<close>

lemma affected_rows_le_one:
  "distinct (map a_id rows) \<Longrightarrow> affected_rows now aid rows \<le> 1"
proof (induction rows)
  case Nil
  then show ?case by (simp add: affected_rows_def)
next
  case (Cons r rows)
  have none: "filter (\<lambda>x. a_id x = aid \<and> a_time_out x \<noteq> Some now) rows = []" if "a_id r = aid"
  proof -
    have "\<forall>x \<in> set rows. a_id x \<noteq> aid"
      using Cons.prems that by (metis distinct.simps(2) image_eqI list.simps(9) set_map)
    then show ?thesis by (simp add: filter_empty_conv)
  qed
  from Cons.prems have "distinct (map a_id rows)" by simp
  with Cons.IH have ih: "affected_rows now aid rows \<le> 1" by simp
  show ?case
  proof (cases "a_id r = aid")
    case True
    then show ?thesis by (simp add: affected_rows_def none)
  next
    case False
    with ih show ?thesis by (simp add: affected_rows_def)
  qed
qed

lemma clock_out_ok:
  assumes "fail_at e \<noteq> Some 0" "fail_at e \<noteq> Some 1" "fail_at e \<noteq> Some 2"
  shows "clock_out e w aid =
           (Inr (0 < affected_rows (curtime e) aid (attendance w)),
            w\<lparr>attendance := set_time_out (curtime e) aid (attendance w),
               log := log w @ [Connect, Begin, Exec (UpdateTimeOut aid), Commit, Close]\<rparr>)"
  using assms by (simp add: clock_out_def emit_def Let_def)

lemma set_time_out_sets:
  assumes "r \<in> set (set_time_out now aid rows)" "a_id r = aid"
  shows "a_time_out r = Some now"
proof -
  from assms(1) obtain x where x: "x \<in> set rows"
      and r: "r = (if a_id x = aid then x\<lparr>a_time_out := Some now\<rparr> else x)"
    unfolding set_time_out_def by (auto simp: image_iff)
  show ?thesis
  proof (cases "a_id x = aid")
    case True
    with r show ?thesis by simp
  next
    case False
    with r assms(2) show ?thesis by simp
  qed
qed

lemma set_time_out_others:
  "r \<in> set rows \<Longrightarrow> a_id r \<noteq> aid \<Longrightarrow> r \<in> set (set_time_out now aid rows)"
  by (induction rows) (auto simp: set_time_out_def)

text \<open>
  Claim C8. The attendance identifier is the key of its table (\<open>clock_in\<close> takes it from
  the row the database numbered), so no two rows share one. When the driver does not fail,
  \<open>clock_out\<close> sets the time-out of the row with the given identifier to the current
  time, leaves the other rows as they are, commits once, and returns true exactly when the
  update affected one row. The test in the code is that the affected-row count is
  positive, which under unique identifiers is the same.
\<close>

theorem clock_out_true_iff_one_row_affected:
  assumes "distinct (map a_id (attendance w))"
    and "fail_at e \<noteq> Some 0" and "fail_at e \<noteq> Some 1" and "fail_at e \<noteq> Some 2"
  shows "clock_out e w aid =
           (Inr (affected_rows (curtime e) aid (attendance w) = 1),
            w\<lparr>attendance := set_time_out (curtime e) aid (attendance w),
               log := log w @ [Connect, Begin, Exec (UpdateTimeOut aid), Commit, Close]\<rparr>)
         \<and> (\<forall>r \<in> set (attendance (snd (clock_out e w aid))).
               a_id r = aid \<longrightarrow> a_time_out r = Some (curtime e))
         \<and> (\<forall>r \<in> set (attendance w).
               a_id r \<noteq> aid \<longrightarrow> r \<in> set (attendance (snd (clock_out e w aid))))"
proof -
  have "affected_rows (curtime e) aid (attendance w) \<le> 1"
    using assms(1) by (rule affected_rows_le_one)
  then have pos: "(0 < affected_rows (curtime e) aid (attendance w))
                  = (affected_rows (curtime e) aid (attendance w) = 1)"
    by arith
  have ok: "clock_out e w aid =
           (Inr (affected_rows (curtime e) aid (attendance w) = 1),
            w\<lparr>attendance := set_time_out (curtime e) aid (attendance w),
               log := log w @ [Connect, Begin, Exec (UpdateTimeOut aid), Commit, Close]\<rparr>)"
    using clock_out_ok [OF assms(2-4), of w aid] by (simp only: pos)
  have sets: "\<forall>r \<in> set (attendance (snd (clock_out e w aid))).
               a_id r = aid \<longrightarrow> a_time_out r = Some (curtime e)"
    unfolding ok by (simp add: set_time_out_sets)
  have others: "\<forall>r \<in> set (attendance w).
               a_id r \<noteq> aid \<longrightarrow> r \<in> set (attendance (snd (clock_out e w aid)))"
    unfolding ok by (simp add: set_time_out_others)
  from ok sets others show ?thesis by blast
qed

theorem clock_out_true_iff_one_row_affected_witness:
  "distinct (map a_id (attendance (ex_world\<lparr>attendance := ex_attendance\<rparr>)))
   \<and> fail_at ex_env \<noteq> Some 0 \<and> fail_at ex_env \<noteq> Some 1 \<and> fail_at ex_env \<noteq> Some 2
   \<and> affected_rows (curtime ex_env) 7 ex_attendance = 1
   \<and> fst (clock_out ex_env (ex_world\<lparr>attendance := ex_attendance\<rparr>) 7) = Inr True
   \<and> map a_time_out (attendance (snd (clock_out ex_env (ex_world\<lparr>attendance := ex_attendance\<rparr>) 7)))
       = [Some 61200, Some 50000]
   \<and> affected_rows (curtime ex_env) 9 ex_attendance = 0
   \<and> fst (clock_out ex_env (ex_world\<lparr>attendance := ex_attendance\<rparr>) 9) = Inr False"
proof -
  let ?w = "ex_world\<lparr>attendance := ex_attendance\<rparr>"
  have d: "distinct (map a_id (attendance ?w))"
    by (simp add: ex_world_def ex_attendance_def)
  have f: "fail_at ex_env \<noteq> Some 0" "fail_at ex_env \<noteq> Some 1" "fail_at ex_env \<noteq> Some 2"
    by (simp_all add: ex_env_def)
  have a7: "affected_rows (curtime ex_env) 7 ex_attendance = 1"
    by (simp add: affected_rows_def ex_attendance_def ex_env_def)
  have a9: "affected_rows (curtime ex_env) 9 ex_attendance = 0"
    by (simp add: affected_rows_def ex_attendance_def ex_env_def)
  have t: "map a_time_out (set_time_out (curtime ex_env) 7 ex_attendance) = [Some 61200, Some 50000]"
    by (simp add: set_time_out_def ex_attendance_def ex_env_def)
  show ?thesis
    using clock_out_true_iff_one_row_affected [OF d f, of 7, THEN conjunct1]
          clock_out_true_iff_one_row_affected [OF d f, of 9, THEN conjunct1] d f
    by (simp add: a7 a9 t ex_world_def)
qed

section \<open>Interpreting the payment terminal's response\<close>

lemma take_eq_iff_prefix: "(take (length sub) s = sub) = (\<exists>post. s = sub @ post)"
  by (metis append_eq_conv_conj append_take_drop_id)

text \<open>\<open>py_in\<close> is the substring test.\<close>

lemma py_in_iff: "py_in sub s = (\<exists>pre post. s = pre @ sub @ post)"
proof (induction s)
  case Nil
  then show ?case by auto
next
  case (Cons c cs)
  show ?case
  proof
    assume "py_in sub (c # cs)"
    then consider "take (length sub) (c # cs) = sub" | "py_in sub cs" by auto
    then show "\<exists>pre post. c # cs = pre @ sub @ post"
    proof cases
      case 1
      then obtain post where "c # cs = sub @ post" using take_eq_iff_prefix by metis
      then have "c # cs = [] @ sub @ post" by simp
      then show ?thesis by blast
    next
      case 2
      with Cons.IH obtain pre post where "cs = pre @ sub @ post" by blast
      then have "c # cs = (c # pre) @ sub @ post" by simp
      then show ?thesis by blast
    qed
  next
    assume "\<exists>pre post. c # cs = pre @ sub @ post"
    then obtain pre post where eq: "c # cs = pre @ sub @ post" by blast
    show "py_in sub (c # cs)"
    proof (cases pre)
      case Nil
      with eq have "take (length sub) (c # cs) = sub" using take_eq_iff_prefix by auto
      then show ?thesis by simp
    next
      case (Cons p pre')
      with eq have "cs = pre' @ sub @ post" by simp
      with Cons.IH have "py_in sub cs" by blast
      then show ?thesis by simp
    qed
  qed
qed

lemma mentions_py_in: "mentions word text = py_in word (py_upper text)"
  by (simp add: mentions_def py_in_iff)

text \<open>
  Claim C1, as the code has it. An empty response is a failure with the reason
  \<open>No response from Linkly.\<close> When the stripped text parses to a JSON object, the outcome
  is success with no reason if the value of \<open>approved\<close> or of \<open>success\<close> is truthy
  (the boolean true, and also any non-zero number or non-empty text), and otherwise a
  failure whose reason is the text of the first truthy one of \<open>message\<close>,
  \<open>responseText\<close> and \<open>Card payment declined.\<close> When the text does not parse, the
  text is scanned without regard to case: \<open>APPROVED\<close> or \<open>SUCCESS\<close> gives success, else
  \<open>DECLINED\<close>, \<open>FAILED\<close> or \<open>ERROR\<close> gives a failure with the stripped text as
  reason, else a failure with an unrecognized-response reason. JSON that is not an object
  is not covered.
\<close>

theorem interpret_linkly_response_cases:
  "interpret_linkly_response e [] = Inr (False, Some ''No response from Linkly.'')
   \<and> (response \<noteq> [] \<and> json_loads e (py_strip response) = Some (PDict kvs) \<longrightarrow>
        interpret_linkly_response e response =
          (if truthy (dict_get kvs ''approved'' PNone) \<or> truthy (dict_get kvs ''success'' PNone)
           then Inr (True, None)
           else Inr (False, Some (py_str e
                  (if truthy (dict_get kvs ''message'' PNone) then dict_get kvs ''message'' PNone
                   else if truthy (dict_get kvs ''responseText'' PNone)
                     then dict_get kvs ''responseText'' PNone
                   else PStr ''Card payment declined.'')))))
   \<and> (response \<noteq> [] \<and> json_loads e (py_strip response) = None \<longrightarrow>
        interpret_linkly_response e response =
          (if mentions ''APPROVED'' (py_strip response) \<or> mentions ''SUCCESS'' (py_strip response)
           then Inr (True, None)
           else if mentions ''DECLINED'' (py_strip response)
              \<or> mentions ''FAILED'' (py_strip response)
              \<or> mentions ''ERROR'' (py_strip response)
           then Inr (False, Some (py_strip response))
           else Inr (False, Some (''Unrecognized Linkly response: '' @ py_strip response))))"
  by (simp add: interpret_linkly_response_def py_or_def Let_def mentions_py_in)

lemma ex_loads_approved:
  \<open>json_loads ex_terminal_env ''{"approved": true}'' = Some (PDict [(''approved'', PBool True)])\<close>
  by (simp add: ex_terminal_env_def ex_json_loads_def)

lemma ex_loads_declined:
  \<open>json_loads ex_terminal_env ''{"success": false, "message": "insufficient funds"}'' =
        Some (PDict [(''success'', PBool False), (''message'', PStr ''insufficient funds'')])\<close>
  by (simp add: ex_terminal_env_def ex_json_loads_def)

lemma ex_loads_text: \<open>json_loads ex_terminal_env ''DECLINED BY ISSUER'' = None\<close>
  by (simp add: ex_terminal_env_def ex_json_loads_def)

lemma ex_loads_no:
  \<open>json_loads ex_terminal_env ''{"approved": "no"}'' = Some (PDict [(''approved'', PStr ''no'')])\<close>
  by (simp add: ex_terminal_env_def ex_json_loads_def)

lemma ex_loads_number: \<open>json_loads ex_terminal_env ''123'' = Some (PInt 123)\<close>
  by (simp add: ex_terminal_env_def ex_json_loads_def)

lemma ex_strip_approved: \<open>py_strip ''{"approved": true}'' = ''{"approved": true}''\<close>
  by code_simp

lemma ex_strip_declined:
  \<open>py_strip ''{"success": false, "message": "insufficient funds"}'' =
     ''{"success": false, "message": "insufficient funds"}''\<close>
  by code_simp

lemma ex_strip_text: "py_strip ''DECLINED BY ISSUER\<newline>'' = ''DECLINED BY ISSUER''"
  by code_simp

lemma ex_strip_no: \<open>py_strip ''{"approved": "no"}'' = ''{"approved": "no"}''\<close>
  by code_simp

lemma ex_strip_number: "py_strip ''123'' = ''123''"
  by code_simp

lemma ex_upper_text: "py_upper ''DECLINED BY ISSUER'' = ''DECLINED BY ISSUER''"
  by code_simp

lemma ex_scan_text:
  "\<not> py_in ''APPROVED'' ''DECLINED BY ISSUER'' \<and> \<not> py_in ''SUCCESS'' ''DECLINED BY ISSUER''
   \<and> py_in ''DECLINED'' ''DECLINED BY ISSUER''"
  by code_simp

theorem interpret_linkly_response_cases_witness:
  \<open>interpret_linkly_response ex_terminal_env [] = Inr (False, Some ''No response from Linkly.'')
   \<and> interpret_linkly_response ex_terminal_env ''{"approved": true}'' = Inr (True, None)
   \<and> interpret_linkly_response ex_terminal_env
        ''{"success": false, "message": "insufficient funds"}''
      = Inr (False, Some ''insufficient funds'')
   \<and> interpret_linkly_response ex_terminal_env ''DECLINED BY ISSUER\<newline>''
      = Inr (False, Some ''DECLINED BY ISSUER'')\<close>
proof -
  have c1: "interpret_linkly_response ex_terminal_env [] = Inr (False, Some ''No response from Linkly.'')"
    using interpret_linkly_response_cases [of ex_terminal_env, THEN conjunct1] .
  have l2: \<open>json_loads ex_terminal_env (py_strip ''{"approved": true}'')
             = Some (PDict [(''approved'', PBool True)])\<close>
    by (simp only: ex_strip_approved ex_loads_approved)
  have c2: \<open>interpret_linkly_response ex_terminal_env ''{"approved": true}'' = Inr (True, None)\<close>
    using interpret_linkly_response_cases [of ex_terminal_env _ "[(''approved'', PBool True)]",
            THEN conjunct2, THEN conjunct1, rule_format, OF conjI, OF _ l2]
    by (simp add: dict_get_def)
  have l3: \<open>json_loads ex_terminal_env
               (py_strip ''{"success": false, "message": "insufficient funds"}'')
             = Some (PDict [(''success'', PBool False), (''message'', PStr ''insufficient funds'')])\<close>
    by (simp only: ex_strip_declined ex_loads_declined)
  have c3: \<open>interpret_linkly_response ex_terminal_env
        ''{"success": false, "message": "insufficient funds"}''
      = Inr (False, Some ''insufficient funds'')\<close>
    using interpret_linkly_response_cases
            [of ex_terminal_env _ "[(''success'', PBool False), (''message'', PStr ''insufficient funds'')]",
            THEN conjunct2, THEN conjunct1, rule_format, OF conjI, OF _ l3]
    by (simp add: dict_get_def py_str_def)
  have l: "json_loads ex_terminal_env (py_strip ''DECLINED BY ISSUER\<newline>'') = None"
    by (simp only: ex_strip_text ex_loads_text)
  have c4: "interpret_linkly_response ex_terminal_env ''DECLINED BY ISSUER\<newline>''
      = Inr (False, Some ''DECLINED BY ISSUER'')"
    using interpret_linkly_response_cases
            [of ex_terminal_env "''DECLINED BY ISSUER\<newline>''",
            THEN conjunct2, THEN conjunct2, rule_format, OF conjI, OF _ l]
    by (simp add: ex_strip_text ex_upper_text ex_scan_text mentions_py_in)
  from c1 c2 c3 c4 show ?thesis by blast
qed

text \<open>
  A response object whose \<open>approved\<close> field is the text \<open>no\<close>: no boolean field is
  true, and the payment counts as approved.
\<close>

theorem interpret_linkly_response_truthy_text:
  \<open>interpret_linkly_response ex_terminal_env ''{"approved": "no"}'' = Inr (True, None)
   \<and> json_loads ex_terminal_env (py_strip ''{"approved": "no"}'')
       = Some (PDict [(''approved'', PStr ''no'')])
   \<and> dict_get [(''approved'', PStr ''no'')] ''approved'' PNone \<noteq> PBool True
   \<and> dict_get [(''approved'', PStr ''no'')] ''success'' PNone \<noteq> PBool True\<close>
proof -
  have l: \<open>json_loads ex_terminal_env (py_strip ''{"approved": "no"}'')
       = Some (PDict [(''approved'', PStr ''no'')])\<close>
    by (simp only: ex_strip_no ex_loads_no)
  have r: \<open>interpret_linkly_response ex_terminal_env ''{"approved": "no"}'' = Inr (True, None)\<close>
    by (simp add: interpret_linkly_response_def l py_or_def dict_get_def)
  from l r show ?thesis by (simp add: dict_get_def)
qed

text \<open>
  A response that is JSON but not an object, such as the number \<open>123\<close>, has no \<open>get\<close>:
  the function raises \<open>AttributeError\<close> instead of returning an outcome.
\<close>

lemma interpret_linkly_response_non_object:
  "interpret_linkly_response ex_terminal_env ''123'' = Inl AttributeError"
proof -
  have l: "json_loads ex_terminal_env (py_strip ''123'') = Some (PInt 123)"
    by (simp only: ex_strip_number ex_loads_number)
  show ?thesis by (simp add: interpret_linkly_response_def l)
qed

section \<open>A cache hit touches neither the database nor the cache file\<close>

lemma py_get_dict: "py_get (PDict kvs) k = Inr (dict_get kvs k PNone)"
  by (simp add: py_get_def dict_get_def)

lemma find_barcode_first:
  assumes "\<forall>q \<in> set pre. \<exists>qs. q = PDict qs \<and> py_str e (dict_get qs ''barcode'' PNone) \<noteq> barcode"
    and "py_str e (dict_get kvs ''barcode'' PNone) = barcode"
  shows "find_barcode e barcode (pre @ PDict kvs # post) = Inr (Some (PDict kvs))"
  using assms
proof (induction pre)
  case Nil
  then show ?case by (simp add: py_get_dict)
next
  case (Cons q pre)
  from Cons.prems(1) obtain qs where q: "q = PDict qs"
    and ne: "py_str e (dict_get qs ''barcode'' PNone) \<noteq> barcode"
    by auto
  from Cons.prems have "find_barcode e barcode (pre @ PDict kvs # post) = Inr (Some (PDict kvs))"
    by (intro Cons.IH) auto
  then show ?case by (simp add: q ne py_get_dict)
qed

text \<open>
  Claim C5. When the barcode is not empty and the first cache entry whose barcode, as
  text, equals it is a product (a non-empty dictionary, after entries that are
  dictionaries too), \<open>fetch_product_by_barcode\<close> returns that entry and leaves the whole
  state as it was: the trace of driver calls has no new event, so the source of truth was
  not queried, and the cache file was not written.
\<close>

theorem fetch_product_by_barcode_cache_hit:
  assumes "barcode \<noteq> []"
    and "load_cache w = Inr (pre @ PDict kvs # post)"
    and "\<forall>q \<in> set pre. \<exists>qs. q = PDict qs \<and> py_str e (dict_get qs ''barcode'' PNone) \<noteq> barcode"
    and "py_str e (dict_get kvs ''barcode'' PNone) = barcode"
    and "kvs \<noteq> []"
  shows "fetch_product_by_barcode e w barcode = (Inr (Some (PDict kvs)), w)
         \<and> log (snd (fetch_product_by_barcode e w barcode)) = log w
         \<and> cache (snd (fetch_product_by_barcode e w barcode)) = cache w
         \<and> products (snd (fetch_product_by_barcode e w barcode)) = products w"
proof -
  have "find_in_cache_by_barcode e w barcode = Inr (Some (PDict kvs))"
    using assms(1) find_barcode_first [OF assms(3,4), of post]
    by (simp add: find_in_cache_by_barcode_def assms(2))
  then have "fetch_product_by_barcode e w barcode = (Inr (Some (PDict kvs)), w)"
    using assms(5) by (simp add: fetch_product_by_barcode_def)
  then show ?thesis by simp
qed

theorem fetch_product_by_barcode_cache_hit_witness:
  "''955'' \<noteq> []
   \<and> load_cache ex_cache_world = Inr ([ex_cached_a] @ ex_cached_b # [])
   \<and> py_str ex_env_db_down (PStr ''111'') \<noteq> ''955''
   \<and> py_str ex_env_db_down (PStr ''955'') = ''955''
   \<and> fetch_product_by_barcode ex_env_db_down ex_cache_world ''955''
       = (Inr (Some ex_cached_b), ex_cache_world)
   \<and> log (snd (fetch_product_by_barcode ex_env_db_down ex_cache_world ''955'')) = []
   \<and> fail_at ex_env_db_down = Some 0"
proof -
  have l: "load_cache ex_cache_world
           = Inr ([ex_cached_a] @ PDict [(''id'', PInt 2), (''name'', PStr ''Rice''),
                                          (''barcode'', PStr ''955''), (''stock'', PFloat 9)] # [])"
    by (simp add: load_cache_def path_exists_def ex_cache_world_def ex_world_def
          read_cache_file_def ex_cached_b_def)
  have p: "\<forall>q \<in> set [ex_cached_a].
             \<exists>qs. q = PDict qs \<and> py_str ex_env_db_down (dict_get qs ''barcode'' PNone) \<noteq> ''955''"
    by (simp add: ex_cached_a_def dict_get_def py_str_def)
  have k: "py_str ex_env_db_down
             (dict_get [(''id'', PInt 2), (''name'', PStr ''Rice''),
                        (''barcode'', PStr ''955''), (''stock'', PFloat 9)] ''barcode'' PNone) = ''955''"
    by (simp add: dict_get_def py_str_def)
  have lg: "log ex_cache_world = []"
    by (simp add: ex_cache_world_def ex_world_def)
  have hit: "fetch_product_by_barcode ex_env_db_down ex_cache_world ''955''
       = (Inr (Some ex_cached_b), ex_cache_world)"
    using fetch_product_by_barcode_cache_hit [OF _ l p k, THEN conjunct1]
    by (simp add: ex_cached_b_def)
  show ?thesis
    using hit l by (simp add: py_str_def lg ex_cached_b_def ex_env_db_down_def)
qed

section \<open>Recording a sale\<close>




text \<open>One round of the loop, by its outcome.\<close>

lemma sale_item_not_dict:
  "\<forall>kvs. item \<noteq> PDict kvs \<Longrightarrow> sale_item e method k n w item = (Some AttributeError, w)"
  by (cases item) (simp_all add: sale_item_def)

lemma sale_item_done:
  assumes "sale_item e method k n w item = (None, w')"
  shows "\<exists>kvs q d. item = PDict kvs \<and> qty_of e kvs = Inr q \<and> deduct_unit_of e kvs = Inr d
           \<and> w' = w\<lparr>sales := sales w @ [sale_row_of method (generated_id e n) kvs],
                     products := update_stock (q * d) (dict_get kvs ''id'' PNone) (products w),
                     log := log w @ [Exec (InsertSale (sale_row_of method (generated_id e n) kvs)),
                                     Exec (UpdateStock (q * d) (dict_get kvs ''id'' PNone))]\<rparr>"
proof (cases item)
  case (PDict kvs)
  with assms show ?thesis
    by (auto simp: sale_item_def Let_def emit_def split: if_splits sum.splits)
qed (use assms in \<open>simp_all add: sale_item_def\<close>)

text \<open>The loop, by its outcome.\<close>

lemma sale_loop_done:
  assumes "sale_loop e method k n w items = (None, w')"
  shows "sales w' = sales w @ expected_rows e method n items
         \<and> products w' = expected_stock e (products w) items
         \<and> cache w' = cache w \<and> disk w' = disk w \<and> attendance w' = attendance w
         \<and> (\<exists>evs. log w' = log w @ evs \<and> list_all is_exec evs)"
  using assms
proof (induction items arbitrary: k n w)
  case Nil
  then show ?case by simp
next
  case (Cons item rest)
  from Cons.prems obtain w1 where
    step: "sale_item e method k n w item = (None, w1)"
    and rest: "sale_loop e method (k + 2) (n + 1) w1 rest = (None, w')"
    by (auto split: prod.splits option.splits)
  from sale_item_done [OF step] obtain kvs q d where
    item: "item = PDict kvs" and q: "qty_of e kvs = Inr q" and d: "deduct_unit_of e kvs = Inr d"
    and w1: "w1 = w\<lparr>sales := sales w @ [sale_row_of method (generated_id e n) kvs],
                     products := update_stock (q * d) (dict_get kvs ''id'' PNone) (products w),
                     log := log w @ [Exec (InsertSale (sale_row_of method (generated_id e n) kvs)),
                                     Exec (UpdateStock (q * d) (dict_get kvs ''id'' PNone))]\<rparr>"
    by blast
  have dec: "item_decrement e item = q * d" and ent: "item_entries item = kvs"
    by (simp_all add: item_decrement_def item_entries_def item q d)
  from Cons.IH [OF rest] obtain evs where
    ih: "sales w' = sales w1 @ expected_rows e method (n + 1) rest"
        "products w' = expected_stock e (products w1) rest"
        "cache w' = cache w1" "disk w' = disk w1" "attendance w' = attendance w1"
        "log w' = log w1 @ evs" "list_all is_exec evs"
    by blast
  have lg: "log w' = log w @ ([Exec (InsertSale (sale_row_of method (generated_id e n) kvs)),
                                Exec (UpdateStock (q * d) (dict_get kvs ''id'' PNone))] @ evs)"
    using ih(6) by (simp add: w1)
  have ex: "list_all is_exec ([Exec (InsertSale (sale_row_of method (generated_id e n) kvs)),
                                Exec (UpdateStock (q * d) (dict_get kvs ''id'' PNone))] @ evs)"
    using ih(7) by simp
  have "sales w' = sales w @ expected_rows e method n (item # rest)"
    using ih(1) by (simp add: w1 ent)
  moreover have "products w' = expected_stock e (products w) (item # rest)"
    using ih(2) by (simp add: w1 ent dec)
  moreover have "cache w' = cache w \<and> disk w' = disk w \<and> attendance w' = attendance w"
    using ih(3-5) by (simp add: w1)
  ultimately show ?case using lg ex by blast
qed

lemma sale_loop_done_items:
  assumes "sale_loop e method k n w items = (None, w')"
  shows "\<forall>item \<in> set items. \<exists>kvs q d.
           item = PDict kvs \<and> qty_of e kvs = Inr q \<and> deduct_unit_of e kvs = Inr d"
  using assms
proof (induction items arbitrary: k n w)
  case Nil
  then show ?case by simp
next
  case (Cons item rest)
  from Cons.prems obtain w1 where
    step: "sale_item e method k n w item = (None, w1)"
    and rest: "sale_loop e method (k + 2) (n + 1) w1 rest = (None, w')"
    by (auto split: prod.splits option.splits)
  from sale_item_done [OF step] have "\<exists>kvs q d.
           item = PDict kvs \<and> qty_of e kvs = Inr q \<and> deduct_unit_of e kvs = Inr d"
    by blast
  with Cons.IH [OF rest] show ?case by simp
qed


lemma update_stock_nonneg:
  "\<forall>r \<in> set rows. 0 \<le> p_stock r \<Longrightarrow> \<forall>r \<in> set (update_stock x pid rows). 0 \<le> p_stock r"
  by (induction rows) (simp_all add: update_stock_def)

lemma update_stock_floor:
  "r \<in> set (update_stock x pid rows) \<Longrightarrow> sql_id_eq pid (p_id r) \<Longrightarrow> 0 \<le> p_stock r"
  by (induction rows) (auto simp: update_stock_def split: if_splits)

lemma expected_stock_nonneg:
  "\<forall>r \<in> set rows. 0 \<le> p_stock r \<Longrightarrow> \<forall>r \<in> set (expected_stock e rows items). 0 \<le> p_stock r"
proof (induction items arbitrary: rows)
  case Nil
  then show ?case by simp
next
  case (Cons item rest)
  show ?case
    by (simp only: expected_stock.simps) (rule Cons.IH, rule update_stock_nonneg, rule Cons.prems)
qed

text \<open>\<open>record_sale\<close>, by its outcome.\<close>

lemma record_sale_true:
  assumes "fst (record_sale e w items method) = Inr True"
  shows "\<exists>w'. sale_loop e method 1 0 (emit [Connect, Begin] w) items = (None, w')
              \<and> snd (record_sale e w items method) = emit [Commit, Close] w'
              \<and> items \<noteq> []"
proof (cases "sale_loop e method 1 0 (emit [Connect, Begin] w) items")
  case (Pair r w')
  with assms show ?thesis
    by (cases r) (auto simp: record_sale_def split: if_splits)
qed

lemma record_sale_not_true:
  assumes "fst (record_sale e w items method) \<noteq> Inr True"
  shows "products (snd (record_sale e w items method)) = products w
         \<and> sales (snd (record_sale e w items method)) = sales w
         \<and> attendance (snd (record_sale e w items method)) = attendance w"
proof (cases "sale_loop e method 1 0 (emit [Connect, Begin] w) items")
  case (Pair r w')
  with assms show ?thesis
    by (cases r) (auto simp: record_sale_def emit_def discard_def split: if_splits)
qed


lemma record_sale_committed:
  assumes "record_sale e w items method = (Inr True, w')"
  shows "sales w' = sales w @ expected_rows e method 0 items"
    and "products w' = expected_stock e (products w) items"
    and "cache w' = cache w"
proof -
  from assms have "fst (record_sale e w items method) = Inr True" by simp
  from record_sale_true [OF this] obtain w1 where
    loop: "sale_loop e method 1 0 (emit [Connect, Begin] w) items = (None, w1)"
    and w': "w' = emit [Commit, Close] w1"
    using assms by auto
  from sale_loop_done [OF loop]
  show "sales w' = sales w @ expected_rows e method 0 items"
    and "products w' = expected_stock e (products w) items"
    and "cache w' = cache w"
    by (simp_all add: w' emit_def)
qed
lemma deduct_unit_of_given:
  "dict_get kvs ''deduct_unit'' PNone = PFloat d \<Longrightarrow> d \<noteq> 0 \<Longrightarrow> deduct_unit_of e kvs = Inr d"
  by (simp add: deduct_unit_of_def py_or_def py_float_def)

lemma deduct_unit_of_default:
  "\<not> truthy (dict_get kvs ''deduct_unit'' PNone) \<Longrightarrow> deduct_unit_of e kvs = Inr 1"
  by (simp add: deduct_unit_of_def py_or_def py_float_def)

lemma qty_of_given: "dict_get kvs ''qty'' PNone = PFloat q \<Longrightarrow> qty_of e kvs = Inr q"
  by (simp add: qty_of_def py_or_def py_float_def)

lemma ex_sale_succeeds:
  "fst (record_sale ex_env ex_shop [ex_item1, ex_item2, ex_item3] ''cash'') = Inr True"
  by (simp add: record_sale_def sale_item_def Let_def emit_def discard_def driver_fails_def
        sale_row_of_def dict_get_def qty_of_def deduct_unit_of_def py_float_def py_or_def
        update_stock_def ex_shop_def ex_world_def ex_env_def ex_product_def ex_item1_def
        ex_item2_def ex_item3_def)

lemma ex_expected_stock:
  "map p_stock (expected_stock ex_env (products ex_shop) [ex_item1, ex_item2, ex_item3]) = [1, 0, 7]"
  by (simp add: item_decrement_def item_entries_def dict_get_def qty_of_def deduct_unit_of_def
        py_float_def py_or_def update_stock_def ex_shop_def ex_world_def ex_product_def
        ex_item1_def ex_item2_def ex_item3_def)

text \<open>
  Claim C4. When \<open>record_sale\<close> succeeds, the stock it leaves is the stock obtained by
  going through the items in input order and replacing, for each, the stock of the
  referenced product by \<open>max 0 (stock - quantity * deduct_unit)\<close>; quantity and
  deduct-unit are the item's own, a missing, empty or zero deduct-unit counting as 1 and a
  missing quantity as 0. A row the update touches has a stock that is not negative, and
  whatever the items and however the operation ends, stock that was not negative before
  is not negative after.
\<close>

theorem record_sale_decrements_stock_floored:
  "(fst (record_sale e w items method) = Inr True \<longrightarrow>
      products (snd (record_sale e w items method)) = expected_stock e (products w) items
      \<and> (\<forall>item \<in> set items. \<exists>kvs q d.
            item = PDict kvs \<and> qty_of e kvs = Inr q \<and> deduct_unit_of e kvs = Inr d
            \<and> item_decrement e item = q * d))
   \<and> ((\<forall>r \<in> set (products w). 0 \<le> p_stock r) \<longrightarrow>
        (\<forall>r \<in> set (products (snd (record_sale e w items method))). 0 \<le> p_stock r))
   \<and> update_stock x pid [r0] =
        [if sql_id_eq pid (p_id r0) then r0\<lparr>p_stock := max 0 (p_stock r0 - x)\<rparr> else r0]
   \<and> (\<forall>r \<in> set (update_stock x pid rows). sql_id_eq pid (p_id r) \<longrightarrow> 0 \<le> p_stock r)
   \<and> (\<forall>dv. dict_get kvs ''deduct_unit'' PNone = PFloat dv \<and> dv \<noteq> 0 \<longrightarrow>
          deduct_unit_of e kvs = Inr dv)
   \<and> (\<not> truthy (dict_get kvs ''deduct_unit'' PNone) \<longrightarrow> deduct_unit_of e kvs = Inr 1)
   \<and> (\<forall>qv. dict_get kvs ''qty'' PNone = PFloat qv \<longrightarrow> qty_of e kvs = Inr qv)"
proof -
  have ok: "products (snd (record_sale e w items method)) = expected_stock e (products w) items
      \<and> (\<forall>item \<in> set items. \<exists>kvs q d.
            item = PDict kvs \<and> qty_of e kvs = Inr q \<and> deduct_unit_of e kvs = Inr d
            \<and> item_decrement e item = q * d)"
    if t: "fst (record_sale e w items method) = Inr True"
  proof -
    from record_sale_true [OF t] obtain w1 where
      loop: "sale_loop e method 1 0 (emit [Connect, Begin] w) items = (None, w1)"
      and w': "snd (record_sale e w items method) = emit [Commit, Close] w1"
      by blast
    have p: "products (snd (record_sale e w items method)) = expected_stock e (products w) items"
      using sale_loop_done [OF loop] by (simp add: w' emit_def)
    have "\<forall>item \<in> set items. \<exists>kvs q d.
            item = PDict kvs \<and> qty_of e kvs = Inr q \<and> deduct_unit_of e kvs = Inr d
            \<and> item_decrement e item = q * d"
    proof
      fix item assume "item \<in> set items"
      with sale_loop_done_items [OF loop] obtain kvs q d where
        i: "item = PDict kvs" "qty_of e kvs = Inr q" "deduct_unit_of e kvs = Inr d"
        by blast
      then have "item_decrement e item = q * d"
        by (simp add: item_decrement_def item_entries_def)
      with i show "\<exists>kvs q d. item = PDict kvs \<and> qty_of e kvs = Inr q
                     \<and> deduct_unit_of e kvs = Inr d \<and> item_decrement e item = q * d"
        by blast
    qed
    with p show ?thesis by blast
  qed
  have inv: "\<forall>r \<in> set (products (snd (record_sale e w items method))). 0 \<le> p_stock r"
    if nn: "\<forall>r \<in> set (products w). 0 \<le> p_stock r"
  proof (cases "fst (record_sale e w items method) = Inr True")
    case True
    from ok [OF True] have "products (snd (record_sale e w items method))
                            = expected_stock e (products w) items" by blast
    with expected_stock_nonneg [OF nn] show ?thesis by simp
  next
    case False
    from record_sale_not_true [OF False] nn show ?thesis by simp
  qed
  have one: "update_stock x pid [r0] =
        [if sql_id_eq pid (p_id r0) then r0\<lparr>p_stock := max 0 (p_stock r0 - x)\<rparr> else r0]"
    by (simp add: update_stock_def)
  have fl: "\<forall>r \<in> set (update_stock x pid rows). sql_id_eq pid (p_id r) \<longrightarrow> 0 \<le> p_stock r"
    by (intro ballI impI) (rule update_stock_floor)
  have c1: "fst (record_sale e w items method) = Inr True \<longrightarrow>
      products (snd (record_sale e w items method)) = expected_stock e (products w) items
      \<and> (\<forall>item \<in> set items. \<exists>kvs q d.
            item = PDict kvs \<and> qty_of e kvs = Inr q \<and> deduct_unit_of e kvs = Inr d
            \<and> item_decrement e item = q * d)"
    by (rule impI) (rule ok)
  have c2: "(\<forall>r \<in> set (products w). 0 \<le> p_stock r) \<longrightarrow>
        (\<forall>r \<in> set (products (snd (record_sale e w items method))). 0 \<le> p_stock r)"
    by (rule impI) (rule inv)
  have c5: "\<forall>dv. dict_get kvs ''deduct_unit'' PNone = PFloat dv \<and> dv \<noteq> 0 \<longrightarrow>
          deduct_unit_of e kvs = Inr dv"
    by (simp add: deduct_unit_of_given)
  have c6: "\<not> truthy (dict_get kvs ''deduct_unit'' PNone) \<longrightarrow> deduct_unit_of e kvs = Inr 1"
    by (simp add: deduct_unit_of_default)
  have c7: "\<forall>qv. dict_get kvs ''qty'' PNone = PFloat qv \<longrightarrow> qty_of e kvs = Inr qv"
    by (simp add: qty_of_given)
  show ?thesis
    apply (intro conjI)
          apply (rule c1)
         apply (rule c2)
        apply (rule one)
       apply (rule fl)
      apply (rule c5)
     apply (rule c6)
    apply (rule c7)
    done
qed

theorem record_sale_decrements_stock_floored_witness:
  "fst (record_sale ex_env ex_shop [ex_item1, ex_item2, ex_item3] ''cash'') = Inr True
   \<and> map p_stock (products ex_shop) = [5, 3, 8]
   \<and> map p_stock (products (snd (record_sale ex_env ex_shop [ex_item1, ex_item2, ex_item3] ''cash'')))
       = [1, 0, 7]
   \<and> item_decrement ex_env ex_item1 = 2 * 2
   \<and> item_decrement ex_env ex_item2 = 10 * 1"
proof -
  have st: "map p_stock (products ex_shop) = [5, 3, 8]"
    by (simp add: ex_shop_def ex_world_def ex_product_def)
  have d1: "item_decrement ex_env ex_item1 = 2 * 2"
    by (simp add: item_decrement_def item_entries_def dict_get_def qty_of_def deduct_unit_of_def
          py_float_def py_or_def ex_item1_def)
  have d2: "item_decrement ex_env ex_item2 = 10 * 1"
    by (simp add: item_decrement_def item_entries_def dict_get_def qty_of_def deduct_unit_of_def
          py_float_def py_or_def ex_item2_def)
  have "products (snd (record_sale ex_env ex_shop [ex_item1, ex_item2, ex_item3] ''cash''))
        = expected_stock ex_env (products ex_shop) [ex_item1, ex_item2, ex_item3]"
    using record_sale_decrements_stock_floored
            [of ex_env ex_shop "[ex_item1, ex_item2, ex_item3]" "''cash''", THEN conjunct1]
          ex_sale_succeeds
    by blast
  then have "map p_stock (products (snd (record_sale ex_env ex_shop [ex_item1, ex_item2, ex_item3] ''cash'')))
       = [1, 0, 7]"
    by (simp only: ex_expected_stock)
  with ex_sale_succeeds st d1 d2 show ?thesis by blast
qed




section \<open>The amount stored for a sale line\<close>

lemma expected_rows_amounts:
  "map s_amount (expected_rows e method n items)
   = map (\<lambda>item. dict_get (item_entries item) ''amount'' (PFloat 0)) items"
  by (induction items arbitrary: n) (simp_all add: sale_row_of_def)

lemma collect_rows_amounts:
  "map (\<lambda>item. dict_get (item_entries item) ''amount'' (PFloat 0)) (collect_rows e rp i table)
   = map (\<lambda>r. PFloat (cell_qty e r * cell_price e r)) (filter (\<lambda>r. \<not> blank_row r) table)"
  by (induction table arbitrary: i) (simp_all add: Let_def item_entries_def dict_get_def)

lemma collect_rows_qtys:
  "map s_qty (expected_rows e method n (collect_rows e rp i table))
   = map (\<lambda>r. PFloat (cell_qty e r)) (filter (\<lambda>r. \<not> blank_row r) table)"
  by (induction table arbitrary: i n)
     (simp_all add: Let_def item_entries_def dict_get_def sale_row_of_def)

text \<open>
  Claim C7, as the code has it. \<open>record_sale\<close> stores for each item the amount the
  caller supplied (0.0 when the item has none); it does not recompute it. The amount is
  computed by \<open>_collect_cart_items\<close>, as the product of the quantity and the price read
  from the cart's cells, so for every sale recorded from the collected cart the stored
  amount is quantity times price, and the stored quantity is that quantity.
\<close>

theorem record_sale_stores_collected_amount:
  assumes "record_sale e w (collect_cart_items e row_products table) method = (Inr True, w')"
  shows "map s_amount (drop (length (sales w)) (sales w'))
           = map (\<lambda>r. PFloat (cell_qty e r * cell_price e r)) (filter (\<lambda>r. \<not> blank_row r) table)
         \<and> map s_qty (drop (length (sales w)) (sales w'))
           = map (\<lambda>r. PFloat (cell_qty e r)) (filter (\<lambda>r. \<not> blank_row r) table)
         \<and> (\<forall>items2 w2 w2'. record_sale e w2 items2 method = (Inr True, w2') \<longrightarrow>
               map s_amount (drop (length (sales w2)) (sales w2'))
               = map (\<lambda>item. dict_get (item_entries item) ''amount'' (PFloat 0)) items2)"
proof -
  have given: "map s_amount (drop (length (sales w2)) (sales w2'))
               = map (\<lambda>item. dict_get (item_entries item) ''amount'' (PFloat 0)) items2"
    if "record_sale e w2 items2 method = (Inr True, w2')" for items2 w2 w2'
    using record_sale_committed(1) [OF that] by (simp add: expected_rows_amounts)
  have a: "map s_amount (drop (length (sales w)) (sales w'))
           = map (\<lambda>r. PFloat (cell_qty e r * cell_price e r)) (filter (\<lambda>r. \<not> blank_row r) table)"
    using given [OF assms] by (simp add: collect_cart_items_def collect_rows_amounts)
  have q: "map s_qty (drop (length (sales w)) (sales w'))
           = map (\<lambda>r. PFloat (cell_qty e r)) (filter (\<lambda>r. \<not> blank_row r) table)"
    using record_sale_committed(1) [OF assms]
    by (simp add: collect_cart_items_def collect_rows_qtys)
  from a q given show ?thesis by blast
qed

lemma ex_cart_sale_succeeds:
  "fst (record_sale ex_cart_env ex_shop (collect_cart_items ex_cart_env ex_row_products ex_table) ''card'')
   = Inr True"
  by (simp add: collect_cart_items_def blank_row_def cell_qty_def cell_price_def safe_float_def
        py_strip_def py_isspace_def
        record_sale_def sale_item_def Let_def emit_def discard_def driver_fails_def
        sale_row_of_def dict_get_def qty_of_def deduct_unit_of_def py_float_def py_or_def
        update_stock_def ex_shop_def ex_world_def ex_env_def ex_product_def ex_cart_env_def
        ex_float_of_str_def ex_table_def ex_row_products_def)

lemma ex_cart_lines:
  "map (\<lambda>r. PFloat (cell_qty ex_cart_env r * cell_price ex_cart_env r))
       (filter (\<lambda>r. \<not> blank_row r) ex_table) = [PFloat 7, PFloat 4]"
  by (simp add: blank_row_def cell_qty_def cell_price_def safe_float_def py_strip_def
        py_isspace_def ex_cart_env_def ex_env_def ex_float_of_str_def ex_table_def)

theorem record_sale_stores_collected_amount_witness:
  "fst (record_sale ex_cart_env ex_shop (collect_cart_items ex_cart_env ex_row_products ex_table) ''card'')
     = Inr True
   \<and> map s_amount (drop (length (sales ex_shop))
        (sales (snd (record_sale ex_cart_env ex_shop
                       (collect_cart_items ex_cart_env ex_row_products ex_table) ''card''))))
     = [PFloat 7, PFloat 4]"
proof -
  let ?r = "record_sale ex_cart_env ex_shop
              (collect_cart_items ex_cart_env ex_row_products ex_table) ''card''"
  have eq: "?r = (Inr True, snd ?r)"
    using ex_cart_sale_succeeds by (metis prod.collapse)
  have "map s_amount (drop (length (sales ex_shop)) (sales (snd ?r)))
        = map (\<lambda>r. PFloat (cell_qty ex_cart_env r * cell_price ex_cart_env r))
              (filter (\<lambda>r. \<not> blank_row r) ex_table)"
    using record_sale_stores_collected_amount [OF eq, THEN conjunct1] .
  then have "map s_amount (drop (length (sales ex_shop)) (sales (snd ?r))) = [PFloat 7, PFloat 4]"
    by (simp only: ex_cart_lines)
  with ex_cart_sale_succeeds show ?thesis by blast
qed

text \<open>
  An item with quantity 2, price 3 and amount 100, passed to \<open>record_sale\<close>: the sale
  succeeds and the stored amount is 100.
\<close>

theorem record_sale_stores_supplied_amount:
  "fst (record_sale ex_env ex_shop [ex_item_wrong_amount] ''cash'') = Inr True
   \<and> map s_qty (sales (snd (record_sale ex_env ex_shop [ex_item_wrong_amount] ''cash'')))
       = [PFloat 2]
   \<and> map s_amount (sales (snd (record_sale ex_env ex_shop [ex_item_wrong_amount] ''cash'')))
       = [PFloat 100]
   \<and> dict_get (item_entries ex_item_wrong_amount) ''price'' PNone = PFloat 3
   \<and> PFloat 100 \<noteq> PFloat (2 * 3)"
  by (simp add: record_sale_def sale_item_def Let_def emit_def discard_def driver_fails_def
        sale_row_of_def dict_get_def qty_of_def deduct_unit_of_def py_float_def py_or_def
        update_stock_def ex_shop_def ex_world_def ex_env_def ex_product_def
        ex_item_wrong_amount_def item_entries_def)

section \<open>Merging products into the cache\<close>

lemma py_get_barcode: "is_dict p \<Longrightarrow> py_get p ''barcode'' = Inr (barcode_of p)"
  by (cases p) (simp_all add: py_get_def barcode_of_def item_entries_def dict_get_def)

lemma cache_dict_puts:
  "list_all is_dict ps \<Longrightarrow>
   cache_dict e acc ps = Inr (puts e acc (filter (\<lambda>p. truthy (barcode_of p)) ps))"
  by (induction ps arbitrary: acc) (simp_all add: py_get_barcode barcode_key_def)

lemma merge_loop_puts:
  "list_all is_dict ps \<Longrightarrow>
   merge_loop e acc ps = Inr (puts e acc (filter (\<lambda>p. barcode_key e p \<noteq> []) ps))"
  by (induction ps arbitrary: acc) (simp_all add: py_get_barcode barcode_key_def Let_def)

lemma merge_into_cache_merged:
  assumes "prods \<noteq> []" and "load_cache w = Inr cached"
    and "list_all is_dict cached" and "list_all is_dict prods"
  shows "merge_into_cache e w prods = (Inr (), save_cache w (merged e cached prods))"
  using assms(1)
  by (simp add: merge_into_cache_def assms(2) cache_dict_puts [OF assms(3)]
        merge_loop_puts [OF assms(4)] merged_def)

lemma load_cache_save_cache: "disk w = WriteOk \<Longrightarrow> load_cache (save_cache w xs) = Inr xs"
  by (simp add: load_cache_def path_exists_def save_cache_def read_cache_file_def)

lemma disk_save_cache: "disk (save_cache w xs) = disk w"
  by (simp add: save_cache_def split: write_outcome.splits)

text \<open>Filling a mapping.\<close>

lemma set_update_subset: "set (AList.update k v al) \<subseteq> insert (k, v) (set al)"
  by (induction al) auto

lemma update_fresh: "k \<notin> fst ` set al \<Longrightarrow> AList.update k v al = al @ [(k, v)]"
  by (induction al) auto

lemma keyed_update: "keyed e d \<Longrightarrow> keyed e (AList.update (barcode_key e p) p d)"
  using set_update_subset [of "barcode_key e p" p d]
  by (auto simp: keyed_def list_all_iff)

lemma puts_keyed: "keyed e acc \<Longrightarrow> keyed e (puts e acc ps)"
  by (induction ps arbitrary: acc) (simp_all add: keyed_update)

lemma puts_distinct: "distinct (map fst acc) \<Longrightarrow> distinct (map fst (puts e acc ps))"
  by (induction ps arbitrary: acc) (simp_all add: distinct_update)

lemma puts_values: "snd ` set (puts e acc ps) \<subseteq> snd ` set acc \<union> set ps"
proof (induction ps arbitrary: acc)
  case Nil
  then show ?case by simp
next
  case (Cons p ps)
  have "snd ` set (AList.update (barcode_key e p) p acc) \<subseteq> insert p (snd ` set acc)"
    using set_update_subset [of "barcode_key e p" p acc] by force
  with Cons.IH [of "AList.update (barcode_key e p) p acc"] show ?case by auto
qed

lemma puts_map_of:
  "map_of (puts e acc ps) k =
     (if \<exists>p \<in> set ps. barcode_key e p = k
      then Some (last (filter (\<lambda>p. barcode_key e p = k) ps))
      else map_of acc k)"
proof (induction ps arbitrary: acc)
  case Nil
  then show ?case by simp
next
  case (Cons p ps)
  show ?case
  proof (cases "\<exists>q \<in> set ps. barcode_key e q = k")
    case True
    then have "filter (\<lambda>p. barcode_key e p = k) ps \<noteq> []"
      by (simp add: filter_empty_conv)
    with True show ?thesis by (simp add: Cons.IH)
  next
    case False
    then have "filter (\<lambda>p. barcode_key e p = k) ps = []"
      by (simp add: filter_empty_conv)
    with False show ?thesis by (simp add: Cons.IH update_conv')
  qed
qed

lemma keyed_filter:
  assumes "keyed e d" and "distinct (map fst d)"
  shows "filter (\<lambda>x. barcode_key e x = k) (map snd d)
         = (case map_of d k of Some v \<Rightarrow> [v] | None \<Rightarrow> [])"
  using assms
proof (induction d)
  case Nil
  then show ?case by simp
next
  case (Cons kp d)
  obtain k' v where kp: "kp = (k', v)" by (cases kp)
  from Cons.prems have key: "barcode_key e v = k'" and kd: "keyed e d"
    and fresh: "k' \<notin> fst ` set d" and dist: "distinct (map fst d)"
    by (simp_all add: keyed_def kp)
  show ?case
  proof (cases "k' = k")
    case True
    with fresh have "map_of d k = None" by (simp add: map_of_eq_None_iff)
    with Cons.IH [OF kd dist] True key show ?thesis by (simp add: kp)
  next
    case False
    with Cons.IH [OF kd dist] key show ?thesis by (simp add: kp)
  qed
qed

lemma keyed_distinct:
  assumes "keyed e d" and "distinct (map fst d)"
  shows "distinct (map (barcode_key e) (map snd d))"
proof -
  have eq: "map (barcode_key e) (map snd d) = map fst d"
    using assms(1) by (induction d) (simp_all add: keyed_def)
  show ?thesis unfolding eq by (rule assms(2))
qed
lemma alist_eqI:
  "map fst xs = map fst ys \<Longrightarrow> map_of xs = map_of ys \<Longrightarrow> distinct (map fst xs) \<Longrightarrow> xs = ys"
proof (induction xs arbitrary: ys)
  case Nil
  then show ?case by simp
next
  case (Cons x xs)
  from Cons.prems(1) obtain y ys' where ys: "ys = y # ys'" and k: "fst x = fst y"
    and ks: "map fst xs = map fst ys'"
    by (cases ys) auto
  note fc = Cons.prems(2) [unfolded ys, THEN fun_cong]
  from fc [of "fst x"] have v: "snd x = snd y" using k by simp
  have fresh: "fst x \<notin> fst ` set xs" "fst x \<notin> fst ` set ys'"
    using Cons.prems(3) ks by (auto simp flip: set_map)
  have "map_of xs k' = map_of ys' k'" for k'
  proof (cases "k' = fst x")
    case True
    from fresh have "map_of xs (fst x) = None" and "map_of ys' (fst x) = None"
      by (simp_all add: map_of_eq_None_iff)
    with True show ?thesis by simp
  next
    case False
    from fc [of k'] False k show ?thesis by simp
  qed
  then have "map_of xs = map_of ys'" by (rule ext)
  with Cons.IH [OF ks] Cons.prems(3) have "xs = ys'" by simp
  with k v show ?case by (simp add: ys prod_eq_iff)
qed

lemma puts_fresh:
  "keyed e d \<Longrightarrow> distinct (map fst (acc @ d)) \<Longrightarrow> puts e acc (map snd d) = acc @ d"
proof (induction d arbitrary: acc)
  case Nil
  then show ?case by simp
next
  case (Cons kp d)
  obtain k v where kp: "kp = (k, v)" by (cases kp)
  from Cons.prems(1) have key: "barcode_key e v = k" and kd: "keyed e d"
    by (simp_all add: keyed_def kp)
  from Cons.prems(2) have fresh: "k \<notin> fst ` set acc"
    and dist: "distinct (map fst ((acc @ [(k, v)]) @ d))"
    by (auto simp: kp)
  have "puts e acc (map snd (kp # d)) = puts e (acc @ [(k, v)]) (map snd d)"
    by (simp add: kp key update_fresh [OF fresh])
  also have "\<dots> = (acc @ [(k, v)]) @ d"
    by (rule Cons.IH [OF kd dist])
  finally show ?case by (simp add: kp)
qed

lemma puts_keys_same:
  "\<forall>p \<in> set ps. barcode_key e p \<in> fst ` set d \<Longrightarrow> map fst (puts e d ps) = map fst d"
proof (induction ps arbitrary: d)
  case Nil
  then show ?case by simp
next
  case (Cons p ps)
  from Cons.prems have in_d: "barcode_key e p \<in> fst ` set d" by simp
  then have keys: "map fst (AList.update (barcode_key e p) p d) = map fst d"
    by (simp add: update_keys)
  have "\<forall>q \<in> set ps. barcode_key e q \<in> fst ` set (AList.update (barcode_key e p) p d)"
    using Cons.prems by (simp add: dom_update)
  from Cons.IH [OF this] keys show ?case by simp
qed

text \<open>Putting the same entries again changes nothing.\<close>

lemma puts_again: 
  assumes "distinct (map fst acc)"
  shows "puts e (puts e acc ps) ps = puts e acc ps"
proof (rule alist_eqI)
  let ?d = "puts e acc ps"
  have "\<forall>p \<in> set ps. barcode_key e p \<in> fst ` set ?d"
  proof
    fix p assume "p \<in> set ps"
    then have "map_of ?d (barcode_key e p) \<noteq> None" by (auto simp: puts_map_of)
    then show "barcode_key e p \<in> fst ` set ?d" by (simp add: map_of_eq_None_iff)
  qed
  then show "map fst (puts e ?d ps) = map fst ?d" by (rule puts_keys_same)
  show "map_of (puts e ?d ps) = map_of ?d"
    by (rule ext) (simp add: puts_map_of)
  have "distinct (map fst ?d)" using assms by (rule puts_distinct)
  then show "distinct (map fst (puts e ?d ps))" by (rule puts_distinct)
qed

text \<open>The list a merge persists.\<close>

lemma merged_dict:
  "keyed e (puts e (puts e [] cs) ps) \<and> distinct (map fst (puts e (puts e [] cs) ps))"
proof -
  have "keyed e []" by (simp add: keyed_def)
  then have k: "keyed e (puts e (puts e [] cs) ps)" by (intro puts_keyed)
  have "distinct (map fst ([] :: (string \<times> pyval) list))" by simp
  then have "distinct (map fst (puts e (puts e [] cs) ps))" by (intro puts_distinct)
  with k show ?thesis by blast
qed

lemma merged_distinct: "distinct (map (barcode_key e) (merged e cached prods))"
  unfolding merged_def using merged_dict by (intro keyed_distinct) blast+

lemma filter_keyed_products:
  "k \<noteq> [] \<Longrightarrow>
   filter (\<lambda>q. barcode_key e q = k) (filter (\<lambda>q. barcode_key e q \<noteq> []) prods)
   = filter (\<lambda>q. barcode_key e q = k) prods"
  by (induction prods) auto

lemma merged_last_wins:
  assumes "p \<in> set prods" and "barcode_key e p \<noteq> []"
  shows "filter (\<lambda>x. barcode_key e x = barcode_key e p) (merged e cached prods)
         = [last (filter (\<lambda>q. barcode_key e q = barcode_key e p) prods)]"
proof -
  let ?k = "barcode_key e p"
  let ?P = "filter (\<lambda>q. barcode_key e q \<noteq> []) prods"
  let ?d = "puts e (puts e [] (filter (\<lambda>p. truthy (barcode_of p)) cached)) ?P"
  have "\<exists>q \<in> set ?P. barcode_key e q = ?k" using assms by auto
  then have "map_of ?d ?k = Some (last (filter (\<lambda>q. barcode_key e q = ?k) ?P))"
    by (simp add: puts_map_of)
  then have m: "map_of ?d ?k = Some (last (filter (\<lambda>q. barcode_key e q = ?k) prods))"
    by (simp only: filter_keyed_products [OF assms(2)])
  have "filter (\<lambda>x. barcode_key e x = ?k) (map snd ?d)
        = (case map_of ?d ?k of Some v \<Rightarrow> [v] | None \<Rightarrow> [])"
    using merged_dict by (intro keyed_filter) blast+
  with m show ?thesis by (simp add: merged_def)
qed

lemma merged_sources:
  "set (merged e cached prods) \<subseteq> {x \<in> set cached. truthy (barcode_of x)} \<union> set prods"
proof -
  let ?C = "filter (\<lambda>p. truthy (barcode_of p)) cached"
  let ?P = "filter (\<lambda>q. barcode_key e q \<noteq> []) prods"
  have "snd ` set (puts e (puts e [] ?C) ?P) \<subseteq> snd ` set (puts e [] ?C) \<union> set ?P"
    by (rule puts_values)
  moreover have "snd ` set (puts e [] ?C) \<subseteq> snd ` set ([] :: (string \<times> pyval) list) \<union> set ?C"
    by (rule puts_values)
  ultimately have "snd ` set (puts e (puts e [] ?C) ?P) \<subseteq> set ?C \<union> set ?P" by auto
  then show ?thesis by (auto simp: merged_def)
qed

lemma merged_ignores_falsy:
  "merged e (filter (\<lambda>p. truthy (barcode_of p)) cached) prods = merged e cached prods"
  by (simp add: merged_def)

lemma merged_idem:
  assumes "list_all (\<lambda>p. truthy (barcode_of p)) prods"
  shows "merged e (merged e cached prods) prods = merged e cached prods"
proof -
  let ?C = "filter (\<lambda>p. truthy (barcode_of p)) cached"
  let ?P = "filter (\<lambda>q. barcode_key e q \<noteq> []) prods"
  let ?d = "puts e (puts e [] ?C) ?P"
  have kd: "keyed e ?d" and dist: "distinct (map fst ?d)" using merged_dict by blast+
  have "\<forall>x \<in> set (map snd ?d). truthy (barcode_of x)"
    using merged_sources [of e cached prods] assms
    by (auto simp: merged_def list_all_iff)
  then have all: "filter (\<lambda>p. truthy (barcode_of p)) (map snd ?d) = map snd ?d"
    by (simp only: filter_id_conv)
  have again1: "puts e [] (map snd ?d) = ?d"
    using puts_fresh [OF kd, of "[]"] dist by simp
  have d0: "distinct (map fst (puts e [] ?C))" by (intro puts_distinct) simp
  have again2: "puts e ?d ?P = ?d" using d0 by (rule puts_again)
  show ?thesis
    by (simp only: merged_def all again1 again2)
qed

lemma merged_idem_set: "set (merged e (merged e cached prods) prods) = set (merged e cached prods)"
proof -
  let ?C = "filter (\<lambda>p. truthy (barcode_of p)) cached"
  let ?P = "filter (\<lambda>q. barcode_key e q \<noteq> []) prods"
  let ?d = "puts e (puts e [] ?C) ?P"
  let ?C2 = "filter (\<lambda>p. truthy (barcode_of p)) (map snd ?d)"
  let ?d2 = "puts e (puts e [] ?C2) ?P"
  have kd: "keyed e ?d" and dist: "distinct (map fst ?d)" using merged_dict by blast+
  have dist2: "distinct (map fst ?d2)" using merged_dict by blast
  have same: "map_of ?d2 k = map_of ?d k" for k
  proof (cases "\<exists>p \<in> set ?P. barcode_key e p = k")
    case True
    then show ?thesis by (simp only: puts_map_of if_True)
  next
    case False
    then have d_k: "map_of ?d k = map_of (puts e [] ?C) k"
      by (simp only: puts_map_of [of e _ ?P] if_False)
    from False have d2_k: "map_of ?d2 k = map_of (puts e [] ?C2) k"
      by (simp only: puts_map_of [of e _ ?P] if_False)
    have sel: "filter (\<lambda>x. barcode_key e x = k) (map snd ?d)
               = (case map_of ?d k of Some v \<Rightarrow> [v] | None \<Rightarrow> [])"
      using kd dist by (rule keyed_filter)
    have sel2: "filter (\<lambda>x. barcode_key e x = k) ?C2
                = filter (\<lambda>p. truthy (barcode_of p)) (filter (\<lambda>x. barcode_key e x = k) (map snd ?d))"
      by (simp only: filter_filter conj_commute)
    show ?thesis
    proof (cases "map_of (puts e [] ?C) k")
      case None
      with d_k sel sel2 have "filter (\<lambda>x. barcode_key e x = k) ?C2 = []" by simp
      then have "\<not> (\<exists>x \<in> set ?C2. barcode_key e x = k)"
        by (simp only: filter_empty_conv) blast
      then have "map_of (puts e [] ?C2) k = None"
        by (simp only: puts_map_of if_False) simp
      with None d_k d2_k show ?thesis by simp
    next
      case (Some v)
      have ex: "\<exists>x \<in> set ?C. barcode_key e x = k"
      proof (rule ccontr)
        assume "\<not> (\<exists>x \<in> set ?C. barcode_key e x = k)"
        then have "map_of (puts e [] ?C) k = None"
          by (simp only: puts_map_of if_False) simp
        with Some show False by simp
      qed
      then have "map_of (puts e [] ?C) k = Some (last (filter (\<lambda>x. barcode_key e x = k) ?C))"
        by (simp only: puts_map_of if_True)
      with Some have v: "v = last (filter (\<lambda>x. barcode_key e x = k) ?C)"
        by simp
      from ex have "filter (\<lambda>x. barcode_key e x = k) ?C \<noteq> []"
        by (simp only: filter_empty_conv) blast
      then have "v \<in> set (filter (\<lambda>x. barcode_key e x = k) ?C)"
        unfolding v by (rule last_in_set)
      then have tv: "truthy (barcode_of v)" by simp
      from Some d_k sel sel2 tv have f: "filter (\<lambda>x. barcode_key e x = k) ?C2 = [v]" by simp
      then have "v \<in> set (filter (\<lambda>x. barcode_key e x = k) ?C2)" by simp
      then have "\<exists>x \<in> set ?C2. barcode_key e x = k" by auto
      then have "map_of (puts e [] ?C2) k = Some (last (filter (\<lambda>x. barcode_key e x = k) ?C2))"
        by (simp only: puts_map_of if_True)
      with f have "map_of (puts e [] ?C2) k = Some v" by simp
      with Some d_k d2_k show ?thesis by simp
    qed
  qed
  then have "map_of ?d2 = map_of ?d" by (rule ext)
  then have "ran (map_of ?d2) = ran (map_of ?d)" by simp
  then have "snd ` set ?d2 = snd ` set ?d"
    by (simp only: ran_distinct [OF dist2] ran_distinct [OF dist])
  then show ?thesis by (simp add: merged_def)
qed

text \<open>\<open>_merge_into_cache\<close> on a cache and a product list of dictionaries.\<close>

lemma merge_into_cache_result:
  assumes "prods \<noteq> []" and "disk w = WriteOk" and "load_cache w = Inr cached"
    and "list_all is_dict cached" and "list_all is_dict prods"
  shows "fst (merge_into_cache e w prods) = Inr ()"
    and "load_cache (snd (merge_into_cache e w prods)) = Inr (merged e cached prods)"
    and "disk (snd (merge_into_cache e w prods)) = WriteOk"
    and "list_all is_dict (merged e cached prods)"
proof -
  note m = merge_into_cache_merged [OF assms(1,3,4,5), of e]
  show "fst (merge_into_cache e w prods) = Inr ()" by (simp add: m)
  show "load_cache (snd (merge_into_cache e w prods)) = Inr (merged e cached prods)"
    by (simp add: m load_cache_save_cache [OF assms(2)])
  show "disk (snd (merge_into_cache e w prods)) = WriteOk"
    by (simp add: m disk_save_cache assms(2))
  have "\<forall>x \<in> set (merged e cached prods). is_dict x"
    using merged_sources [of e cached prods] assms(4,5)
    by (auto simp: list_all_iff)
  then show "list_all is_dict (merged e cached prods)"
    by (simp add: list_all_iff)
qed

text \<open>
  What a merge leaves when it can run. Let a non-empty list of products be merged into a
  cache that can be read and written, cache entries and products being dictionaries. Then
  after the merge no two cache entries have the same barcode text; for every incoming
  product whose barcode text is not empty, exactly one cache entry has that barcode text,
  and it is the last incoming product with it; merging the same list a second time leaves
  the same set of entries, and the very same list when every incoming product has a truthy
  barcode.
\<close>

lemma merge_into_cache_last_write_wins:
  assumes "prods \<noteq> []" and "disk w = WriteOk" and "load_cache w = Inr cached"
    and "list_all is_dict cached" and "list_all is_dict prods"
  shows "\<exists>once twice.
           fst (merge_into_cache e w prods) = Inr ()
           \<and> load_cache (snd (merge_into_cache e w prods)) = Inr once
           \<and> distinct (map (barcode_key e) once)
           \<and> (\<forall>p \<in> set prods. barcode_key e p \<noteq> [] \<longrightarrow>
                 filter (\<lambda>x. barcode_key e x = barcode_key e p) once
                 = [last (filter (\<lambda>q. barcode_key e q = barcode_key e p) prods)])
           \<and> load_cache (snd (merge_into_cache e (snd (merge_into_cache e w prods)) prods))
               = Inr twice
           \<and> set twice = set once
           \<and> (list_all (\<lambda>p. truthy (barcode_of p)) prods \<longrightarrow> twice = once)"
proof -
  let ?w1 = "snd (merge_into_cache e w prods)"
  let ?once = "merged e cached prods"
  let ?twice = "merged e ?once prods"
  note r1 = merge_into_cache_result [OF assms, of e]
  note r2 = merge_into_cache_result [OF assms(1) r1(3) r1(2) r1(4) assms(5), of e]
  have c2: "distinct (map (barcode_key e) ?once)"
    by (rule merged_distinct)
  have c3: "\<forall>p \<in> set prods. barcode_key e p \<noteq> [] \<longrightarrow>
               filter (\<lambda>x. barcode_key e x = barcode_key e p) ?once
               = [last (filter (\<lambda>q. barcode_key e q = barcode_key e p) prods)]"
    by (intro ballI impI) (rule merged_last_wins)
  have c4: "set ?twice = set ?once"
    by (rule merged_idem_set)
  have c5: "list_all (\<lambda>p. truthy (barcode_of p)) prods \<longrightarrow> ?twice = ?once"
    by (rule impI) (rule merged_idem)
  have "fst (merge_into_cache e w prods) = Inr ()
           \<and> load_cache ?w1 = Inr ?once
           \<and> distinct (map (barcode_key e) ?once)
           \<and> (\<forall>p \<in> set prods. barcode_key e p \<noteq> [] \<longrightarrow>
                 filter (\<lambda>x. barcode_key e x = barcode_key e p) ?once
                 = [last (filter (\<lambda>q. barcode_key e q = barcode_key e p) prods)])
           \<and> load_cache (snd (merge_into_cache e ?w1 prods)) = Inr ?twice
           \<and> set ?twice = set ?once
           \<and> (list_all (\<lambda>p. truthy (barcode_of p)) prods \<longrightarrow> ?twice = ?once)"
    apply (intro conjI)
          apply (rule r1(1))
         apply (rule r1(2))
        apply (rule c2)
       apply (rule c3)
      apply (rule r2(2))
     apply (rule c4)
    apply (rule c5)
    done
  then show ?thesis by blast
qed

lemma ex_tea_keys:
  "barcode_key ex_env ex_old_tea = ''111''" "barcode_key ex_env ex_mid_tea = ''111''"
  "barcode_key ex_env ex_new_tea = ''111''" "barcode_of ex_mid_tea = PStr ''111''"
  "barcode_of ex_new_tea = PStr ''111''" "barcode_of ex_old_tea = PStr ''111''"
  by (simp_all add: barcode_key_def barcode_of_def item_entries_def dict_get_def py_str_def
        ex_old_tea_def ex_mid_tea_def ex_new_tea_def)

lemma ex_merge_world_cache:
  "load_cache ex_merge_world = Inr [ex_old_tea, ex_ghost]" "disk ex_merge_world = WriteOk"
  by (simp_all add: ex_merge_world_def ex_world_def load_cache_def path_exists_def
        read_cache_file_def)

lemma ex_are_dicts:
  "is_dict ex_old_tea" "is_dict ex_mid_tea" "is_dict ex_new_tea" "is_dict ex_ghost"
  "is_dict ex_loose_a" "is_dict ex_loose_b"
  by (simp_all add: ex_old_tea_def ex_mid_tea_def ex_new_tea_def ex_ghost_def ex_loose_a_def
        ex_loose_b_def)

text \<open>
  An older and then a newer snapshot of one barcode, merged into a cache that holds a
  still older one: one entry with that barcode is left, the newer snapshot, and a second
  merge of the same list leaves the same cache.
\<close>

lemma merge_into_cache_last_write_wins_example:
  "filter (\<lambda>x. barcode_key ex_env x = ''111'')
      (merged ex_env [ex_old_tea, ex_ghost] [ex_mid_tea, ex_new_tea]) = [ex_new_tea]
   \<and> load_cache (snd (merge_into_cache ex_env ex_merge_world [ex_mid_tea, ex_new_tea]))
      = Inr (merged ex_env [ex_old_tea, ex_ghost] [ex_mid_tea, ex_new_tea])
   \<and> load_cache (snd (merge_into_cache ex_env
         (snd (merge_into_cache ex_env ex_merge_world [ex_mid_tea, ex_new_tea]))
         [ex_mid_tea, ex_new_tea]))
      = load_cache (snd (merge_into_cache ex_env ex_merge_world [ex_mid_tea, ex_new_tea]))"
proof -
  let ?prods = "[ex_mid_tea, ex_new_tea]"
  let ?cached = "[ex_old_tea, ex_ghost]"
  have a1: "?prods \<noteq> []" by simp
  have a2: "disk ex_merge_world = WriteOk" by (rule ex_merge_world_cache)
  have a3: "load_cache ex_merge_world = Inr ?cached" by (rule ex_merge_world_cache)
  have a4: "list_all is_dict ?cached" by (simp add: ex_are_dicts)
  have a5: "list_all is_dict ?prods" by (simp add: ex_are_dicts)
  have a6: "list_all (\<lambda>p. truthy (barcode_of p)) ?prods" by (simp add: ex_tea_keys)
  note r1 = merge_into_cache_result [OF a1 a2 a3 a4 a5, of ex_env]
  from merge_into_cache_last_write_wins [OF a1 a2 a3 a4 a5, of ex_env]
  obtain once twice where
    o: "load_cache (snd (merge_into_cache ex_env ex_merge_world ?prods)) = Inr once"
    and lw: "\<forall>p \<in> set ?prods. barcode_key ex_env p \<noteq> [] \<longrightarrow>
               filter (\<lambda>x. barcode_key ex_env x = barcode_key ex_env p) once
               = [last (filter (\<lambda>q. barcode_key ex_env q = barcode_key ex_env p) ?prods)]"
    and t: "load_cache (snd (merge_into_cache ex_env
               (snd (merge_into_cache ex_env ex_merge_world ?prods)) ?prods)) = Inr twice"
    and same: "list_all (\<lambda>p. truthy (barcode_of p)) ?prods \<longrightarrow> twice = once"
    by blast
  from o r1(2) have once: "once = merged ex_env ?cached ?prods" by simp
  have last: "last (filter (\<lambda>q. barcode_key ex_env q = ''111'') ?prods) = ex_new_tea"
    by (simp add: ex_tea_keys)
  from lw have "barcode_key ex_env ex_new_tea \<noteq> [] \<longrightarrow>
               filter (\<lambda>x. barcode_key ex_env x = barcode_key ex_env ex_new_tea) once
               = [last (filter (\<lambda>q. barcode_key ex_env q = barcode_key ex_env ex_new_tea) ?prods)]"
    by simp
  then have w: "filter (\<lambda>x. barcode_key ex_env x = ''111'') once = [ex_new_tea]"
    by (simp only: ex_tea_keys last) simp
  from same a6 have "twice = once" by blast
  with o t w once r1(2) show ?thesis by simp
qed

text \<open>
  Claim C3. The claim asks that merging the same product list twice leave the cache that
  merging it once leaves. The code departs from it on a product without a barcode. The
  loop over the incoming products keys each by \<open>str(product.get("barcode"))\<close>, and
  the text \<open>None\<close> that this gives for a product without a barcode passes the test
  \<open>if barcode:\<close>, so the product is persisted; the comprehension over the loaded cache
  tests the barcode itself, \<open>if p.get("barcode")\<close>, and drops the same entry at the
  next merge, after which the loop appends it again behind the entries that were kept.
  A product whose barcode is \<open>None\<close>, followed by one with the barcode 111, merged
  twice into a missing cache file: the first merge leaves the two in the order given, the
  second in the other order.
\<close>

theorem merge_into_cache_reorders:
  "load_cache (snd (merge_into_cache ex_env ex_world [ex_loose_b, ex_new_tea]))
     = Inr [ex_loose_b, ex_new_tea]
   \<and> load_cache (snd (merge_into_cache ex_env
         (snd (merge_into_cache ex_env ex_world [ex_loose_b, ex_new_tea]))
         [ex_loose_b, ex_new_tea]))
     = Inr [ex_new_tea, ex_loose_b]
   \<and> [ex_loose_b, ex_new_tea] \<noteq> [ex_new_tea, ex_loose_b]
   \<and> barcode_of ex_loose_b = PNone \<and> barcode_key ex_env ex_loose_b = ''None''"
  by (simp add: merge_into_cache_def load_cache_def path_exists_def save_cache_def
        read_cache_file_def py_get_def Let_def py_str_def barcode_of_def barcode_key_def
        item_entries_def dict_get_def ex_world_def ex_loose_b_def ex_new_tea_def)

section \<open>Entries without a barcode in a merge\<close>

lemma barcode_key_none: "barcode_of p = PNone \<Longrightarrow> barcode_key e p = ''None''"
  by (simp add: barcode_key_def py_str_def)

lemma barcode_of_absent:
  "map_of kvs ''barcode'' = None \<or> map_of kvs ''barcode'' = Some PNone \<Longrightarrow>
   barcode_of (PDict kvs) = PNone"
  by (auto simp: barcode_of_def item_entries_def dict_get_def)

lemma filter_barcodeless:
  assumes "filter (\<lambda>x. barcode_key e x = ''None'') xs = [x0]" and "barcode_of x0 = PNone"
  shows "filter (\<lambda>x. barcode_of x = PNone) xs = [x0]"
proof -
  have "filter (\<lambda>x. barcode_of x = PNone) xs
        = filter (\<lambda>x. barcode_key e x = ''None'' \<and> barcode_of x = PNone) xs"
    by (rule filter_cong) (auto simp: barcode_key_none)
  also have "\<dots> = filter (\<lambda>x. barcode_of x = PNone) (filter (\<lambda>x. barcode_key e x = ''None'') xs)"
    by (simp only: filter_filter)
  also have "\<dots> = [x0]" by (simp add: assms)
  finally show ?thesis .
qed

text \<open>
  Claim C9. Let a non-empty list of products be merged into a cache that can be read and
  written, cache entries and products being dictionaries. The persisted list is the one built from
  the cached entries with a truthy barcode only: every entry of it is an incoming product
  or a cached entry whose barcode is truthy, so a cached entry whose barcode is missing or
  falsy is not carried over. An incoming product whose barcode field is absent or
  \<open>None\<close> has the key \<open>None\<close>; if any incoming product has that key, exactly one
  entry of the persisted list has it, the last such product. So, when the products under
  that key are those without a barcode, of all incoming products without a barcode exactly
  the last one is in the persisted list.
\<close>

theorem merge_into_cache_barcodeless:
  assumes "prods \<noteq> []" and "disk w = WriteOk" and "load_cache w = Inr cached"
    and "list_all is_dict cached" and "list_all is_dict prods"
  shows "\<exists>persisted.
           load_cache (snd (merge_into_cache e w prods)) = Inr persisted
           \<and> persisted = merged e (filter (\<lambda>x. truthy (barcode_of x)) cached) prods
           \<and> (\<forall>x \<in> set persisted.
                 x \<in> set prods \<or> (x \<in> set cached \<and> truthy (barcode_of x)))
           \<and> (\<forall>kvs. map_of kvs ''barcode'' = None \<or> map_of kvs ''barcode'' = Some PNone \<longrightarrow>
                 barcode_key e (PDict kvs) = ''None'')
           \<and> ((\<exists>p \<in> set prods. barcode_key e p = ''None'') \<longrightarrow>
                 filter (\<lambda>x. barcode_key e x = ''None'') persisted
                 = [last (filter (\<lambda>p. barcode_key e p = ''None'') prods)])
           \<and> ((\<exists>p \<in> set prods. barcode_of p = PNone)
                \<and> (\<forall>p \<in> set prods. barcode_key e p = ''None'' \<longrightarrow> barcode_of p = PNone) \<longrightarrow>
                 filter (\<lambda>x. barcode_of x = PNone) persisted
                 = [last (filter (\<lambda>p. barcode_of p = PNone) prods)])"
proof -
  let ?r = "merged e cached prods"
  note r1 = merge_into_cache_result [OF assms, of e]
  have c1: "?r = merged e (filter (\<lambda>x. truthy (barcode_of x)) cached) prods"
    by (rule merged_ignores_falsy [symmetric])
  have c2: "\<forall>x \<in> set ?r. x \<in> set prods \<or> (x \<in> set cached \<and> truthy (barcode_of x))"
    using merged_sources [of e cached prods] by auto
  have c3: "\<forall>kvs. map_of kvs ''barcode'' = None \<or> map_of kvs ''barcode'' = Some PNone \<longrightarrow>
               barcode_key e (PDict kvs) = ''None''"
    by (intro allI impI barcode_key_none barcode_of_absent)
  have none: "filter (\<lambda>x. barcode_key e x = ''None'') ?r
               = [last (filter (\<lambda>p. barcode_key e p = ''None'') prods)]"
    if "\<exists>p \<in> set prods. barcode_key e p = ''None''"
  proof -
    from that obtain p where p: "p \<in> set prods" and k: "barcode_key e p = ''None''" by blast
    then have "barcode_key e p \<noteq> []" by simp
    from merged_last_wins [OF p this, of cached] show ?thesis
      by (simp only: k)
  qed
  have c4: "(\<exists>p \<in> set prods. barcode_key e p = ''None'') \<longrightarrow>
               filter (\<lambda>x. barcode_key e x = ''None'') ?r
               = [last (filter (\<lambda>p. barcode_key e p = ''None'') prods)]"
    by (rule impI) (rule none)
  have c5: "(\<exists>p \<in> set prods. barcode_of p = PNone)
              \<and> (\<forall>p \<in> set prods. barcode_key e p = ''None'' \<longrightarrow> barcode_of p = PNone) \<longrightarrow>
               filter (\<lambda>x. barcode_of x = PNone) ?r
               = [last (filter (\<lambda>p. barcode_of p = PNone) prods)]"
  proof
    assume h: "(\<exists>p \<in> set prods. barcode_of p = PNone)
              \<and> (\<forall>p \<in> set prods. barcode_key e p = ''None'' \<longrightarrow> barcode_of p = PNone)"
    then obtain p where p: "p \<in> set prods" "barcode_of p = PNone" by blast
    then have ex: "\<exists>p \<in> set prods. barcode_key e p = ''None''"
      using barcode_key_none by blast
    have same: "filter (\<lambda>p. barcode_key e p = ''None'') prods
                = filter (\<lambda>p. barcode_of p = PNone) prods"
      using h by (intro filter_cong) (auto simp: barcode_key_none)
    let ?x0 = "last (filter (\<lambda>p. barcode_of p = PNone) prods)"
    from p have "filter (\<lambda>p. barcode_of p = PNone) prods \<noteq> []"
      by (simp only: filter_empty_conv) blast
    then have "?x0 \<in> set (filter (\<lambda>p. barcode_of p = PNone) prods)" by (rule last_in_set)
    then have q: "barcode_of ?x0 = PNone" by simp
    from none [OF ex] have "filter (\<lambda>x. barcode_key e x = ''None'') ?r = [?x0]"
      by (simp only: same)
    from filter_barcodeless [OF this q]
    show "filter (\<lambda>x. barcode_of x = PNone) ?r = [?x0]" .
  qed
  show ?thesis
    apply (intro exI conjI)
         apply (rule r1(2))
        apply (rule c1)
       apply (rule c2)
      apply (rule c3)
     apply (rule c4)
    apply (rule c5)
    done
qed

lemma ex_loose_keys:
  "barcode_of ex_loose_a = PNone" "barcode_of ex_loose_b = PNone" "barcode_of ex_ghost = PNone"
  "barcode_key ex_env ex_loose_a = ''None''" "barcode_key ex_env ex_loose_b = ''None''"
  by (simp_all add: barcode_key_def barcode_of_def item_entries_def dict_get_def py_str_def
        ex_loose_a_def ex_loose_b_def ex_ghost_def)

lemma ex_ghost_not_incoming:
  "ex_ghost \<noteq> ex_loose_a" "ex_ghost \<noteq> ex_new_tea" "ex_ghost \<noteq> ex_loose_b"
  by (simp_all add: ex_ghost_def ex_loose_a_def ex_new_tea_def ex_loose_b_def)

theorem merge_into_cache_barcodeless_witness:
  "[ex_loose_a, ex_new_tea, ex_loose_b] \<noteq> [] \<and> disk ex_merge_world = WriteOk
   \<and> load_cache ex_merge_world = Inr [ex_old_tea, ex_ghost]
   \<and> list_all is_dict [ex_old_tea, ex_ghost]
   \<and> list_all is_dict [ex_loose_a, ex_new_tea, ex_loose_b]
   \<and> \<not> truthy (barcode_of ex_ghost)
   \<and> (\<exists>persisted.
         load_cache (snd (merge_into_cache ex_env ex_merge_world
                            [ex_loose_a, ex_new_tea, ex_loose_b])) = Inr persisted
         \<and> ex_ghost \<notin> set persisted
         \<and> filter (\<lambda>x. barcode_key ex_env x = ''None'') persisted = [ex_loose_b]
         \<and> filter (\<lambda>x. barcode_of x = PNone) persisted = [ex_loose_b])"
proof -
  let ?prods = "[ex_loose_a, ex_new_tea, ex_loose_b]"
  let ?cached = "[ex_old_tea, ex_ghost]"
  have a1: "?prods \<noteq> []" by simp
  have a2: "disk ex_merge_world = WriteOk" by (rule ex_merge_world_cache)
  have a3: "load_cache ex_merge_world = Inr ?cached" by (rule ex_merge_world_cache)
  have a4: "list_all is_dict ?cached" by (simp add: ex_are_dicts)
  have a5: "list_all is_dict ?prods" by (simp add: ex_are_dicts)
  from merge_into_cache_barcodeless [OF a1 a2 a3 a4 a5, of ex_env]
  obtain persisted where
    l: "load_cache (snd (merge_into_cache ex_env ex_merge_world ?prods)) = Inr persisted"
    and src: "\<forall>x \<in> set persisted.
                x \<in> set ?prods \<or> (x \<in> set ?cached \<and> truthy (barcode_of x))"
    and keyd: "(\<exists>p \<in> set ?prods. barcode_key ex_env p = ''None'') \<longrightarrow>
                 filter (\<lambda>x. barcode_key ex_env x = ''None'') persisted
                 = [last (filter (\<lambda>p. barcode_key ex_env p = ''None'') ?prods)]"
    and bare: "(\<exists>p \<in> set ?prods. barcode_of p = PNone)
                \<and> (\<forall>p \<in> set ?prods. barcode_key ex_env p = ''None'' \<longrightarrow> barcode_of p = PNone) \<longrightarrow>
                 filter (\<lambda>x. barcode_of x = PNone) persisted
                 = [last (filter (\<lambda>p. barcode_of p = PNone) ?prods)]"
    by blast
  have g2: "\<not> truthy (barcode_of ex_ghost)" by (simp add: ex_loose_keys)
  from src g2 have g3: "ex_ghost \<notin> set persisted"
    using ex_ghost_not_incoming by auto
  have ex1: "\<exists>p \<in> set ?prods. barcode_key ex_env p = ''None''"
    by (simp add: ex_loose_keys)
  have l1: "last (filter (\<lambda>p. barcode_key ex_env p = ''None'') ?prods) = ex_loose_b"
    by (simp add: ex_loose_keys ex_tea_keys)
  from keyd ex1 have "filter (\<lambda>x. barcode_key ex_env x = ''None'') persisted
               = [last (filter (\<lambda>p. barcode_key ex_env p = ''None'') ?prods)]"
    by blast
  then have k: "filter (\<lambda>x. barcode_key ex_env x = ''None'') persisted = [ex_loose_b]"
    by (simp only: l1)
  have ex2: "(\<exists>p \<in> set ?prods. barcode_of p = PNone)
             \<and> (\<forall>p \<in> set ?prods. barcode_key ex_env p = ''None'' \<longrightarrow> barcode_of p = PNone)"
    by (simp add: ex_loose_keys ex_tea_keys)
  have l2: "last (filter (\<lambda>p. barcode_of p = PNone) ?prods) = ex_loose_b"
    by (simp add: ex_loose_keys ex_tea_keys)
  from bare ex2 have "filter (\<lambda>x. barcode_of x = PNone) persisted
               = [last (filter (\<lambda>p. barcode_of p = PNone) ?prods)]"
    by blast
  then have b: "filter (\<lambda>x. barcode_of x = PNone) persisted = [ex_loose_b]"
    by (simp only: l2)
  from l g3 k b have "\<exists>persisted.
         load_cache (snd (merge_into_cache ex_env ex_merge_world ?prods)) = Inr persisted
         \<and> ex_ghost \<notin> set persisted
         \<and> filter (\<lambda>x. barcode_key ex_env x = ''None'') persisted = [ex_loose_b]
         \<and> filter (\<lambda>x. barcode_of x = PNone) persisted = [ex_loose_b]"
    by blast
  with a1 a2 a3 a4 a5 g2 show ?thesis by blast
qed

end
